theory Spec2Isabelle
  imports Main
begin

section \<open>Data model of \<open>main.py\<close>\<close>

text \<open>
  A shallow embedding of the reminder back end (\<open>src/main.py\<close>): the pydantic model
  \<open>TutoringClass\<close>, the module-level stores \<open>classes_db\<close> and \<open>messages_db\<close>, the
  scheduler's job store, and the route handlers that create, update, delete and fire
  reminders. A Python \<open>str\<close> is held as the bytes of its UTF-8 encoding (a surrogate
  is encoded like any other code point), so ASCII text is itself; values read from the
  environment (\<open>uuid.uuid4()\<close>, \<open>datetime.now()\<close>) are parameters of the functions
  that read them.
\<close>

text \<open>
  A \<open>datetime\<close> value: the proleptic Gregorian ordinal of its date (1 is 0001-01-01,
  3652059 is 9999-12-31) and its time of day.
\<close>

record py_datetime =
  dt_ordinal :: int
  dt_hour :: int
  dt_minute :: int
  dt_second :: int
  dt_microsecond :: int

definition valid_datetime :: "py_datetime \<Rightarrow> bool" where
  "valid_datetime dt \<longleftrightarrow>
     1 \<le> dt_ordinal dt \<and> dt_ordinal dt \<le> 3652059 \<and>
     0 \<le> dt_hour dt \<and> dt_hour dt \<le> 23 \<and>
     0 \<le> dt_minute dt \<and> dt_minute dt \<le> 59 \<and>
     0 \<le> dt_second dt \<and> dt_second dt \<le> 59 \<and>
     0 \<le> dt_microsecond dt \<and> dt_microsecond dt \<le> 999999"

text \<open>The pydantic model \<open>TutoringClass\<close>; \<open>.dict()\<close> stores the same fields.\<close>

record TutoringClass =
  id' :: "string option"
  parent_phone :: string
  child_name :: string
  subject :: string
  day_of_week :: string
  class_time :: string
  reminder_minutes :: int
  is_active :: bool
  created_at :: "py_datetime option"

text \<open>The body of \<open>POST /reminders/send/{class_id}\<close>.\<close>

record ReminderRequest =
  class_id :: string
  custom_message :: "string option"

text \<open>An element of \<open>messages_db\<close>.\<close>

record message =
  msg_id :: string
  msg_phone :: string
  msg_message :: string
  msg_timestamp :: py_datetime
  msg_status :: string

text \<open>
  \<open>CronTrigger(day_of_week=d, hour=h, minute=m)\<close>: fires every week on weekday \<open>d\<close>
  (0 is Monday, 6 is Sunday) at \<open>h:m\<close>.
\<close>

record CronTrigger =
  cron_day_of_week :: nat
  cron_hour :: int
  cron_minute :: int

text \<open>
  A job of the scheduler: its trigger and the argument list \<open>[class_id]\<close> that
  \<open>send_class_reminder\<close> is called with.
\<close>

record job =
  job_trigger :: CronTrigger
  job_args :: string

text \<open>
  What a handler raises: an \<open>HTTPException\<close> with status code and detail, or a Python
  exception that no handler catches (the caller sees a server error).
\<close>

datatype error = HTTPException nat string | ValueError | OverflowError

datatype level = INFO | ERROR

text \<open>
  The process state: the two in-memory stores, the job store of the scheduler (job id
  and job, as \<open>scheduler.get_jobs()\<close> lists them) and what \<open>logger\<close> has written.
\<close>

record state =
  classes_db :: "string \<rightharpoonup> TutoringClass"
  messages_db :: "message list"
  jobs :: "(string \<times> job) list"
  log :: "(level \<times> string) list"

definition init_state :: state where
  "init_state = \<lparr>classes_db = Map.empty, messages_db = [], jobs = [], log = []\<rparr>"

section \<open>Python built-ins used by the handlers\<close>

text \<open>\<open>str.split(sep)\<close> for a one-character separator: empty pieces are kept.\<close>

fun split :: "char \<Rightarrow> string \<Rightarrow> string list" where
  "split sep [] = [[]]"
| "split sep (c # cs) =
     (if c = sep then [] # split sep cs
      else (case split sep cs of [] \<Rightarrow> [[c]] | p # ps \<Rightarrow> (c # p) # ps))"

text \<open>
  \<open>str.strip()\<close> as the reminder text needs it: that text begins and ends with a line
  feed next to a character that is no whitespace, so only ASCII whitespace is met.
\<close>

definition py_isspace :: "char \<Rightarrow> bool" where
  "py_isspace c \<longleftrightarrow>
     c \<in> set [CHR 0x09, CHR 0x0A, CHR 0x0B, CHR 0x0C, CHR 0x0D,
               CHR 0x1C, CHR 0x1D, CHR 0x1E, CHR 0x1F, CHR 0x20]"

definition strip :: "string \<Rightarrow> string" where
  "strip s = rev (dropWhile py_isspace (rev (dropWhile py_isspace s)))"

text \<open>
  The code points of a string, from its UTF-8 bytes. \<open>None\<close> marks bytes that are the
  encoding of no \<open>str\<close>.
\<close>

definition is_cont :: "char \<Rightarrow> bool" where
  "is_cont c \<longleftrightarrow> (128::nat) \<le> of_char c \<and> of_char c < (192::nat)"

definition cont_bits :: "char \<Rightarrow> nat" where
  "cont_bits c = of_char c - 128"

fun utf8_decode :: "string \<Rightarrow> nat list option" where
  "utf8_decode [] = Some []"
| "utf8_decode (b # bs) =
     (if of_char b < (128::nat) then map_option ((#) (of_char b)) (utf8_decode bs)
      else if (194::nat) \<le> of_char b \<and> of_char b < (224::nat) then
        (case bs of
           c1 # r \<Rightarrow>
             if is_cont c1
             then map_option ((#) ((of_char b - 192) * 64 + cont_bits c1)) (utf8_decode r)
             else None
         | _ \<Rightarrow> None)
      else if (224::nat) \<le> of_char b \<and> of_char b < (240::nat) then
        (case bs of
           c1 # c2 # r \<Rightarrow>
             if is_cont c1 \<and> is_cont c2 \<and>
                2048 \<le> (of_char b - 224) * 4096 + cont_bits c1 * 64 + cont_bits c2
             then map_option ((#) ((of_char b - 224) * 4096 + cont_bits c1 * 64 + cont_bits c2))
                    (utf8_decode r)
             else None
         | _ \<Rightarrow> None)
      else if (240::nat) \<le> of_char b \<and> of_char b < (245::nat) then
        (case bs of
           c1 # c2 # c3 # r \<Rightarrow>
             if is_cont c1 \<and> is_cont c2 \<and> is_cont c3 \<and>
                65536 \<le> (of_char b - 240) * 262144 + cont_bits c1 * 4096 +
                           cont_bits c2 * 64 + cont_bits c3 \<and>
                (of_char b - 240) * 262144 + cont_bits c1 * 4096 +
                  cont_bits c2 * 64 + cont_bits c3 < 1114112
             then map_option ((#) ((of_char b - 240) * 262144 + cont_bits c1 * 4096 +
                                   cont_bits c2 * 64 + cont_bits c3))
                    (utf8_decode r)
             else None
         | _ \<Rightarrow> None)
      else None)"

text \<open>The code points that are whitespace (\<open>Py_UNICODE_ISSPACE\<close>).\<close>

definition unicode_isspace :: "nat \<Rightarrow> bool" where
  "unicode_isspace cp \<longleftrightarrow>
     cp \<in> set [0x09, 0x0A, 0x0B, 0x0C, 0x0D, 0x1C, 0x1D, 0x1E, 0x1F, 0x20, 0x85, 0xA0,
                0x1680, 0x2000, 0x2001, 0x2002, 0x2003, 0x2004, 0x2005, 0x2006, 0x2007,
                0x2008, 0x2009, 0x200A, 0x2028, 0x2029, 0x202F, 0x205F, 0x3000]"

text \<open>
  The decimal digits of Unicode 14.0, the character database of CPython 3.11: they come
  in runs of ten, zero to nine, and the list names the zero of each run.
  \<open>unicode_decimal\<close> is \<open>Py_UNICODE_TODECIMAL\<close>.
\<close>

definition decimal_zeros :: "nat list" where
  "decimal_zeros =
     [0x30, 0x660, 0x6F0, 0x7C0, 0x966, 0x9E6, 0xA66, 0xAE6,
      0xB66, 0xBE6, 0xC66, 0xCE6, 0xD66, 0xDE6, 0xE50, 0xED0,
      0xF20, 0x1040, 0x1090, 0x17E0, 0x1810, 0x1946, 0x19D0, 0x1A80,
      0x1A90, 0x1B50, 0x1BB0, 0x1C40, 0x1C50, 0xA620, 0xA8D0, 0xA900,
      0xA9D0, 0xA9F0, 0xAA50, 0xABF0, 0xFF10, 0x104A0, 0x10D30, 0x11066,
      0x110F0, 0x11136, 0x111D0, 0x112F0, 0x11450, 0x114D0, 0x11650, 0x116C0,
      0x11730, 0x118E0, 0x11950, 0x11C50, 0x11D50, 0x11DA0, 0x16A60, 0x16AC0,
      0x16B50, 0x1D7CE, 0x1D7D8, 0x1D7E2, 0x1D7EC, 0x1D7F6, 0x1E140, 0x1E2F0,
      0x1E950, 0x1FBF0]"

definition unicode_decimal :: "nat \<Rightarrow> nat option" where
  "unicode_decimal cp =
     map_option (\<lambda>z. cp - z) (find (\<lambda>z. z \<le> cp \<and> cp < z + 10) decimal_zeros)"

text \<open>
  What \<open>int()\<close> does to each code point before it parses: below 127 it is kept, other
  whitespace becomes a space and another decimal digit its ASCII digit; any other code
  point makes the string no integer.
\<close>

definition to_ascii :: "nat \<Rightarrow> nat option" where
  "to_ascii cp =
     (if cp < 127 then Some cp
      else if unicode_isspace cp then Some 0x20
      else map_option (\<lambda>d. 0x30 + d) (unicode_decimal cp))"

text \<open>The whitespace the parser skips at both ends (\<open>Py_ISSPACE\<close>).\<close>

definition c_isspace :: "nat \<Rightarrow> bool" where
  "c_isspace n \<longleftrightarrow> n \<in> set [0x09, 0x0A, 0x0B, 0x0C, 0x0D, 0x20]"

definition c_strip :: "nat list \<Rightarrow> nat list" where
  "c_strip a = rev (dropWhile c_isspace (rev (dropWhile c_isspace a)))"

definition is_digit :: "nat \<Rightarrow> bool" where
  "is_digit n \<longleftrightarrow> 48 \<le> n \<and> n \<le> 57"

definition digit_value :: "nat \<Rightarrow> int" where
  "digit_value n = int n - 48"

text \<open>
  The digits of a decimal literal after its first digit: digits, each optionally
  preceded by a single underscore (95).
\<close>

fun parse_digits :: "int \<Rightarrow> nat list \<Rightarrow> int option" where
  "parse_digits acc [] = Some acc"
| "parse_digits acc (c # cs) =
     (if is_digit c then parse_digits (acc * 10 + digit_value c) cs
      else if c = 95 then
        (case cs of
           [] \<Rightarrow> None
         | d # ds \<Rightarrow>
             if is_digit d then parse_digits (acc * 10 + digit_value d) ds else None)
      else None)"

text \<open>CPython's default limit on the digits of a decimal string (\<open>sys.int_max_str_digits\<close>).\<close>

definition int_max_str_digits :: nat where
  "int_max_str_digits = 4300"

definition unsigned_int :: "nat list \<Rightarrow> int option" where
  "unsigned_int s =
     (case s of
        [] \<Rightarrow> None
      | c # cs \<Rightarrow>
          if is_digit c \<and> length (filter is_digit s) \<le> int_max_str_digits
          then parse_digits (digit_value c) cs else None)"

text \<open>
  The parser proper, on the ASCII text: whitespace at both ends is dropped, one sign
  (45 is minus, 43 is plus) is allowed, the rest is a decimal literal.
\<close>

definition ascii_int :: "nat list \<Rightarrow> int option" where
  "ascii_int a =
     (case c_strip a of
        [] \<Rightarrow> None
      | c # cs \<Rightarrow>
          if c = 45 then map_option uminus (unsigned_int cs)
          else if c = 43 then unsigned_int cs
          else unsigned_int (c # cs))"

text \<open>\<open>int(s)\<close> for a string; \<open>None\<close> is the \<open>ValueError\<close>.\<close>

definition py_int :: "string \<Rightarrow> int option" where
  "py_int s =
     (case utf8_decode s of
        None \<Rightarrow> None
      | Some cps \<Rightarrow>
          (case those (map to_ascii cps) of
             None \<Rightarrow> None
           | Some a \<Rightarrow> ascii_int a))"

text \<open>\<open>str(n)\<close> for an integer.\<close>

definition digit_char :: "nat \<Rightarrow> char" where
  "digit_char d = char_of (48 + d)"

function str_nat :: "nat \<Rightarrow> string" where
  "str_nat n = (if n < 10 then [digit_char n] else str_nat (n div 10) @ [digit_char (n mod 10)])"
  by pat_completeness auto
termination
  by (relation "measure id") auto

declare str_nat.simps [simp del]

definition str_int :: "int \<Rightarrow> string" where
  "str_int i = (if i < 0 then CHR ''-'' # str_nat (nat (- i)) else str_nat (nat i))"

text \<open>
  \<open>dt.replace(hour=h, minute=m, second=0, microsecond=0)\<close>: the arguments are converted
  to C \<open>int\<close> (\<open>OverflowError\<close> outside its range) and then checked against the ranges
  of a time of day (\<open>ValueError\<close>).
\<close>

definition c_int_range :: "int \<Rightarrow> bool" where
  "c_int_range i \<longleftrightarrow> - 2147483648 \<le> i \<and> i \<le> 2147483647"

definition replace_time :: "py_datetime \<Rightarrow> int \<Rightarrow> int \<Rightarrow> error + py_datetime" where
  "replace_time dt h m =
     (if c_int_range h \<and> c_int_range m then
        if h < 0 \<or> 23 < h then Inl ValueError
        else if m < 0 \<or> 59 < m then Inl ValueError
        else Inr (dt\<lparr>dt_hour := h, dt_minute := m, dt_second := 0, dt_microsecond := 0\<rparr>)
      else Inl OverflowError)"

text \<open>
  \<open>dt - timedelta(minutes=n)\<close>. The \<open>timedelta\<close> holds \<open>n div 1440\<close> days and is
  refused beyond 999999999 days; the difference is refused when its date leaves the
  years 1 to 9999. Seconds and microseconds are unchanged by whole minutes.
\<close>

definition minus_minutes :: "py_datetime \<Rightarrow> int \<Rightarrow> error + py_datetime" where
  "minus_minutes dt n =
     (if 999999999 < \<bar>n div 1440\<bar> then Inl OverflowError
      else
        let total = dt_ordinal dt * 1440 + dt_hour dt * 60 + dt_minute dt - n;
            ord = total div 1440;
            tod = total mod 1440
        in if ord < 1 \<or> 3652059 < ord then Inl OverflowError
           else Inr (dt\<lparr>dt_ordinal := ord, dt_hour := tod div 60, dt_minute := tod mod 60\<rparr>))"

section \<open>Computing the trigger\<close>

definition day_mapping :: "string \<rightharpoonup> nat" where
  "day_mapping = map_of
     [(''Monday'', 0), (''Tuesday'', 1), (''Wednesday'', 2), (''Thursday'', 3),
      (''Friday'', 4), (''Saturday'', 5), (''Sunday'', 6)]"

text \<open>
  \<open>hour, minute = map(int, class_time.split(":"))\<close> inside \<open>try\<close>: any failure (not
  two pieces, a piece that is no integer) is \<open>None\<close>.
\<close>

definition parse_class_time :: "string \<Rightarrow> (int \<times> int) option" where
  "parse_class_time s =
     (case split CHR '':'' s of
        [a, b] \<Rightarrow>
          (case py_int a of
             None \<Rightarrow> None
           | Some h \<Rightarrow> (case py_int b of None \<Rightarrow> None | Some m \<Rightarrow> Some (h, m)))
      | _ \<Rightarrow> None)"

text \<open>
  Lines 257 to 283 of \<open>schedule_reminder\<close>: either the function logs an error and
  returns without scheduling (\<open>Rejected\<close> with the logged text), or it builds the
  trigger, or an exception of the date arithmetic escapes.
\<close>

datatype trigger_outcome = Rejected string | Trigger CronTrigger

definition reminder_trigger :: "TutoringClass \<Rightarrow> py_datetime \<Rightarrow> error + trigger_outcome" where
  "reminder_trigger tutoring_class now =
     (case day_mapping (day_of_week tutoring_class) of
        None \<Rightarrow> Inr (Rejected (''Invalid day: '' @ day_of_week tutoring_class))
      | Some d \<Rightarrow>
          (case parse_class_time (class_time tutoring_class) of
             None \<Rightarrow> Inr (Rejected (''Invalid time format: '' @ class_time tutoring_class))
           | Some (hour, minute) \<Rightarrow>
               (case replace_time now hour minute of
                  Inl e \<Rightarrow> Inl e
                | Inr t \<Rightarrow>
                    (case minus_minutes t (reminder_minutes tutoring_class) of
                       Inl e \<Rightarrow> Inl e
                     | Inr reminder_time \<Rightarrow>
                         Inr (Trigger \<lparr>cron_day_of_week = d,
                                       cron_hour = dt_hour reminder_time,
                                       cron_minute = dt_minute reminder_time\<rparr>)))))"

section \<open>The job store of the scheduler\<close>

text \<open>
  The scheduler is running from start-up on, so \<open>add_job\<close> and \<open>remove_job\<close> act on the
  job store at once. The store is listed as pairs of job id and job; the position of a
  job in the list carries no meaning.
\<close>

text \<open>
  \<open>scheduler.add_job(..., id=jid, replace_existing=True)\<close>: a job stored under \<open>jid\<close> is
  replaced where it stands, otherwise the job is added.
\<close>

primrec add_job :: "string \<Rightarrow> job \<Rightarrow> (string \<times> job) list \<Rightarrow> (string \<times> job) list" where
  "add_job jid j [] = [(jid, j)]"
| "add_job jid j (p # ps) = (if fst p = jid then (jid, j) # ps else p # add_job jid j ps)"

text \<open>
  \<open>scheduler.remove_job(jid)\<close>: the job stored under \<open>jid\<close> is taken out; \<open>None\<close> is the
  \<open>JobLookupError\<close> raised when there is none.
\<close>

primrec remove_job :: "string \<Rightarrow> (string \<times> job) list \<Rightarrow> (string \<times> job) list option" where
  "remove_job jid [] = None"
| "remove_job jid (p # ps) =
     (if fst p = jid then Some ps else map_option ((#) p) (remove_job jid ps))"

text \<open>\<open>try: scheduler.remove_job(jid) except: pass\<close>.\<close>

definition try_remove_job :: "string \<Rightarrow> (string \<times> job) list \<Rightarrow> (string \<times> job) list" where
  "try_remove_job jid js = (case remove_job jid js of None \<Rightarrow> js | Some js' \<Rightarrow> js')"

text \<open>
  The timing mechanism: when the wall clock reaches weekday \<open>d\<close>, \<open>h:m\<close>, every job whose
  trigger names that minute is run; \<open>due_jobs\<close> lists the arguments of the calls of
  \<open>send_class_reminder\<close> this makes.
\<close>

definition trigger_matches :: "CronTrigger \<Rightarrow> nat \<Rightarrow> int \<Rightarrow> int \<Rightarrow> bool" where
  "trigger_matches tr d h m \<longleftrightarrow>
     cron_day_of_week tr = d \<and> cron_hour tr = h \<and> cron_minute tr = m"

definition due_jobs :: "nat \<Rightarrow> int \<Rightarrow> int \<Rightarrow> (string \<times> job) list \<Rightarrow> string list" where
  "due_jobs d h m js =
     map (\<lambda>p. job_args (snd p)) (filter (\<lambda>p. trigger_matches (job_trigger (snd p)) d h m) js)"

section \<open>Handlers\<close>

definition job_id :: "string \<Rightarrow> string" where
  "job_id cid = ''reminder_'' @ cid"

text \<open>
  \<open>schedule_reminder\<close>. An exception of the date arithmetic escapes before anything is
  changed, so the failing case carries no state.
\<close>

definition schedule_reminder :: "string \<Rightarrow> TutoringClass \<Rightarrow> py_datetime \<Rightarrow> state \<Rightarrow> error + state" where
  "schedule_reminder cid tutoring_class now st =
     (case reminder_trigger tutoring_class now of
        Inl e \<Rightarrow> Inl e
      | Inr (Rejected msg) \<Rightarrow> Inr (st\<lparr>log := log st @ [(ERROR, msg)]\<rparr>)
      | Inr (Trigger trigger) \<Rightarrow>
          Inr (st\<lparr>jobs := add_job (job_id cid) \<lparr>job_trigger = trigger, job_args = cid\<rparr> (jobs st),
                  log := log st @ [(INFO, ''Scheduled reminder for class '' @ cid)]\<rparr>))"

text \<open>
  \<open>send_whatsapp_message\<close>: the transport. \<open>mid\<close> is the \<open>uuid4\<close> of the message and
  \<open>ts\<close> the clock reading.
\<close>

definition send_whatsapp_message :: "string \<Rightarrow> string \<Rightarrow> string \<Rightarrow> py_datetime \<Rightarrow> state \<Rightarrow> state" where
  "send_whatsapp_message phone msg mid ts st =
     st\<lparr>messages_db := messages_db st @
           [\<lparr>msg_id = mid, msg_phone = phone, msg_message = msg,
             msg_timestamp = ts, msg_status = ''sent''\<rparr>],
        log := log st @ [(INFO, ''WhatsApp message sent to '' @ phone @ '': '' @ msg)]\<rparr>"

text \<open>The reminder text; the pictographs of the template are their UTF-8 bytes.\<close>

definition reminder_message :: "TutoringClass \<Rightarrow> string" where
  "reminder_message c =
     [CHR 0x0A, CHR 0xF0, CHR 0x9F, CHR 0x94, CHR 0x94] @ '' Class Reminder!'' @
     [CHR 0x0A, CHR 0x0A, CHR 0xF0, CHR 0x9F, CHR 0x93, CHR 0x9A] @ '' Subject: '' @ subject c @
     [CHR 0x0A, CHR 0xF0, CHR 0x9F, CHR 0x91, CHR 0xB6] @ '' Student: '' @ child_name c @
     [CHR 0x0A, CHR 0xE2, CHR 0x8F, CHR 0xB0] @ '' Time: '' @ class_time c @
     [CHR 0x0A, CHR 0xF0, CHR 0x9F, CHR 0x93, CHR 0x85] @ '' Today: '' @ day_of_week c @
     [CHR 0x0A, CHR 0x0A] @ ''Don'' @ [CHR 0x27] @ ''t forget! Class starts in '' @
     str_int (reminder_minutes c) @ '' minutes.'' @ [CHR 0x0A]"

text \<open>
  \<open>send_class_reminder\<close>, the function every job runs. It returns \<open>None\<close> on every
  path and raises nothing.
\<close>

definition send_class_reminder :: "string \<Rightarrow> string \<Rightarrow> py_datetime \<Rightarrow> state \<Rightarrow> state" where
  "send_class_reminder cid mid ts st =
     (case classes_db st cid of
        None \<Rightarrow> st\<lparr>log := log st @ [(ERROR, ''Class '' @ cid @ '' not found'')]\<rparr>
      | Some tutoring_class \<Rightarrow>
          if \<not> is_active tutoring_class then st
          else send_whatsapp_message (parent_phone tutoring_class)
                 (strip (reminder_message tutoring_class)) mid ts st)"

text \<open>A JSON response body, as the handlers build it.\<close>

type_synonym response = "(string \<times> string) list"

text \<open>
  \<open>POST /classes/\<close>. \<open>uuid\<close> is the value of \<open>uuid.uuid4()\<close>, \<open>now1\<close> the clock reading
  stored as \<open>created_at\<close> and \<open>now2\<close> the one \<open>schedule_reminder\<close> takes.
\<close>

definition create_class ::
  "TutoringClass \<Rightarrow> string \<Rightarrow> py_datetime \<Rightarrow> py_datetime \<Rightarrow> state \<Rightarrow> (error + response) \<times> state" where
  "create_class tutoring_class uuid now1 now2 st =
     (let tc = tutoring_class\<lparr>id' := Some uuid, created_at := Some now1\<rparr>;
          st1 = st\<lparr>classes_db := (classes_db st)(uuid \<mapsto> tc)\<rparr>
      in case schedule_reminder uuid tc now2 st1 of
           Inl e \<Rightarrow> (Inl e, st1)
         | Inr st2 \<Rightarrow>
             (Inr [(''message'', ''Class created successfully''), (''class_id'', uuid)], st2))"

text \<open>\<open>PUT /classes/{class_id}\<close>.\<close>

definition update_class ::
  "string \<Rightarrow> TutoringClass \<Rightarrow> py_datetime \<Rightarrow> state \<Rightarrow> (error + response) \<times> state" where
  "update_class cid updated_class now st =
     (if classes_db st cid = None then (Inl (HTTPException 404 ''Class not found''), st)
      else
        let st1 = st\<lparr>jobs := try_remove_job (job_id cid) (jobs st)\<rparr>;
            uc = updated_class\<lparr>id' := Some cid\<rparr>;
            st2 = st1\<lparr>classes_db := (classes_db st1)(cid \<mapsto> uc)\<rparr>
        in case schedule_reminder cid uc now st2 of
             Inl e \<Rightarrow> (Inl e, st2)
           | Inr st3 \<Rightarrow> (Inr [(''message'', ''Class updated successfully'')], st3))"

text \<open>\<open>DELETE /classes/{class_id}\<close>.\<close>

definition delete_class :: "string \<Rightarrow> state \<Rightarrow> (error + response) \<times> state" where
  "delete_class cid st =
     (if classes_db st cid = None then (Inl (HTTPException 404 ''Class not found''), st)
      else
        (Inr [(''message'', ''Class deleted successfully'')],
         st\<lparr>jobs := try_remove_job (job_id cid) (jobs st),
            classes_db := (classes_db st)(cid := None)\<rparr>))"

text \<open>\<open>POST /reminders/send/{class_id}\<close>; the request body is not read.\<close>

definition send_manual_reminder ::
  "string \<Rightarrow> ReminderRequest \<Rightarrow> string \<Rightarrow> py_datetime \<Rightarrow> state \<Rightarrow> (error + response) \<times> state" where
  "send_manual_reminder cid request mid ts st =
     (if classes_db st cid = None then (Inl (HTTPException 404 ''Class not found''), st)
      else (Inr [(''message'', ''Reminder sent successfully'')], send_class_reminder cid mid ts st))"

section \<open>Reachable states\<close>

text \<open>
  The states the process can be in: the empty stores at start-up, and the state after
  any handler has run, whether it answered or raised, and after any job has fired.
  Clock readings are dates of the years 1 to 9999, and \<open>uuid4\<close> yields an id that no
  stored record has.
\<close>

inductive reachable :: "state \<Rightarrow> bool" where
  r_init: "reachable init_state"
| r_create: "reachable st \<Longrightarrow> classes_db st uuid = None \<Longrightarrow>
     valid_datetime now1 \<Longrightarrow> valid_datetime now2 \<Longrightarrow>
     reachable (snd (create_class tutoring_class uuid now1 now2 st))"
| r_update: "reachable st \<Longrightarrow> valid_datetime now \<Longrightarrow>
     reachable (snd (update_class cid updated_class now st))"
| r_delete: "reachable st \<Longrightarrow> reachable (snd (delete_class cid st))"
| r_manual: "reachable st \<Longrightarrow> reachable (snd (send_manual_reminder cid request mid ts st))"
| r_fire: "reachable st \<Longrightarrow> reachable (send_class_reminder cid mid ts st)"

text \<open>
  The same states when every clock reading that \<open>schedule_reminder\<close> takes is on the
  date with ordinal \<open>e\<close> or later.
\<close>

inductive reachable_since :: "int \<Rightarrow> state \<Rightarrow> bool" for e :: int where
  s_init: "reachable_since e init_state"
| s_create: "reachable_since e st \<Longrightarrow> classes_db st uuid = None \<Longrightarrow>
     valid_datetime now1 \<Longrightarrow> valid_datetime now2 \<Longrightarrow> e \<le> dt_ordinal now2 \<Longrightarrow>
     reachable_since e (snd (create_class tutoring_class uuid now1 now2 st))"
| s_update: "reachable_since e st \<Longrightarrow> valid_datetime now \<Longrightarrow> e \<le> dt_ordinal now \<Longrightarrow>
     reachable_since e (snd (update_class cid updated_class now st))"
| s_delete: "reachable_since e st \<Longrightarrow> reachable_since e (snd (delete_class cid st))"
| s_manual: "reachable_since e st \<Longrightarrow>
     reachable_since e (snd (send_manual_reminder cid request mid ts st))"
| s_fire: "reachable_since e st \<Longrightarrow> reachable_since e (send_class_reminder cid mid ts st)"

section \<open>Example inputs\<close>

text \<open>A clock reading on 4 November 2026 and a class on Monday at 00:10, reminded 30 minutes ahead.\<close>

definition example_now :: py_datetime where
  "example_now =
     \<lparr>dt_ordinal = 739924, dt_hour = 9, dt_minute = 15, dt_second = 7, dt_microsecond = 123\<rparr>"

definition example_class :: TutoringClass where
  "example_class =
     \<lparr>id' = None, parent_phone = ''+15550100'', child_name = ''Ann'', subject = ''Math'',
      day_of_week = ''Monday'', class_time = ''00:10'', reminder_minutes = 30,
      is_active = True, created_at = None\<rparr>"

definition example_request :: ReminderRequest where
  "example_request = \<lparr>class_id = ''c1'', custom_message = None\<rparr>"

text \<open>The state after the example class has been created switched off.\<close>

definition dormant_state :: state where
  "dormant_state =
     snd (create_class (example_class\<lparr>is_active := False\<rparr>) ''c1'' example_now example_now init_state)"

text \<open>The state after the example class has been created as it is.\<close>

definition created_state :: state where
  "created_state = snd (create_class example_class ''c1'' example_now example_now init_state)"

text \<open>The example class with a weekday that is no weekday, and with an hour past 23.\<close>

definition funday_class :: TutoringClass where
  "funday_class = example_class\<lparr>day_of_week := ''Funday''\<rparr>"

definition late_class :: TutoringClass where
  "late_class = example_class\<lparr>class_time := ''24:00''\<rparr>"

text \<open>The state after the class with the malformed weekday has been created.\<close>

definition funday_state :: state where
  "funday_state = snd (create_class funday_class ''c1'' example_now example_now init_state)"

text \<open>A class on Wednesday at 16:00, reminded 30 minutes ahead, and the state after its creation.\<close>

definition afternoon_class :: TutoringClass where
  "afternoon_class = example_class\<lparr>day_of_week := ''Wednesday'', class_time := ''16:00''\<rparr>"

definition afternoon_state :: state where
  "afternoon_state = snd (create_class afternoon_class ''c1'' example_now example_now init_state)"

text \<open>The example class with a time that is no time.\<close>

definition unparsed_class :: TutoringClass where
  "unparsed_class = example_class\<lparr>class_time := ''4 pm''\<rparr>"

text \<open>Two jobs for the class \<open>c1\<close>: Friday at 17:45 and Friday at 17:15.\<close>

definition friday_1745 :: job where
  "friday_1745 =
     \<lparr>job_trigger = \<lparr>cron_day_of_week = 4, cron_hour = 17, cron_minute = 45\<rparr>, job_args = ''c1''\<rparr>"

definition friday_1715 :: job where
  "friday_1715 =
     \<lparr>job_trigger = \<lparr>cron_day_of_week = 4, cron_hour = 17, cron_minute = 15\<rparr>, job_args = ''c1''\<rparr>"

section \<open>Notions of the specification\<close>

text \<open>
  The specification's weekly-minute space: the minute of the week of a weekday and a
  time of day, and a trigger moved forward by the lead time, modulo the week.
\<close>

definition weekly_minute :: "nat \<Rightarrow> int \<Rightarrow> int \<Rightarrow> int" where
  "weekly_minute d h m = int d * 1440 + h * 60 + m"

definition add_lead_back :: "CronTrigger \<Rightarrow> int \<Rightarrow> int" where
  "add_lead_back tr lead =
     (weekly_minute (cron_day_of_week tr) (cron_hour tr) (cron_minute tr) + lead) mod (7 * 1440)"

text \<open>
  The Trigger Calculator of the specification: on valid input the lead time is taken
  from the minute of the week, modulo the week, and the result is read as weekday, hour
  and minute; on any other input it fails.
\<close>

definition compute_fire_spec :: "nat \<Rightarrow> int \<Rightarrow> int \<Rightarrow> int \<Rightarrow> CronTrigger option" where
  "compute_fire_spec d h m lead =
     (if d \<le> 6 \<and> 0 \<le> h \<and> h \<le> 23 \<and> 0 \<le> m \<and> m \<le> 59 \<and> 0 \<le> lead then
        let w = (weekly_minute d h m - lead) mod (7 * 1440)
        in Some \<lparr>cron_day_of_week = nat (w div 1440),
                 cron_hour = (w mod 1440) div 60,
                 cron_minute = w mod 60\<rparr>
      else None)"

text \<open>
  A record whose weekday and time are valid and whose reminder falls on the day of the
  class: the lead time is not negative and does not reach back past midnight.
\<close>

definition same_day_reminder :: "TutoringClass \<Rightarrow> bool" where
  "same_day_reminder c \<longleftrightarrow>
     (case day_mapping (day_of_week c) of
        None \<Rightarrow> False
      | Some d \<Rightarrow>
          (case parse_class_time (class_time c) of
             None \<Rightarrow> False
           | Some (h, m) \<Rightarrow>
               0 \<le> h \<and> h \<le> 23 \<and> 0 \<le> m \<and> m \<le> 59 \<and>
               0 \<le> reminder_minutes c \<and> reminder_minutes c \<le> h * 60 + m))"

text \<open>
  The invariant of the job store: job ids are not repeated; every job is stored under
  the id of the class it is called with, that class has a record, and the trigger is
  what \<open>reminder_trigger\<close> builds from the record; every record with a same-day reminder
  has its job.
\<close>

definition job_store_inv :: "state \<Rightarrow> bool" where
  "job_store_inv st \<longleftrightarrow>
     distinct (map fst (jobs st)) \<and>
     (\<forall>p \<in> set (jobs st).
        fst p = job_id (job_args (snd p)) \<and>
        (\<exists>c now. classes_db st (job_args (snd p)) = Some c \<and> valid_datetime now \<and>
           reminder_trigger c now = Inr (Trigger (job_trigger (snd p))))) \<and>
     (\<forall>cid c. classes_db st cid = Some c \<and> same_day_reminder c \<longrightarrow>
        job_id cid \<in> fst ` set (jobs st)) \<and>
     (\<forall>cid c. classes_db st cid = Some c \<longrightarrow> id' c = Some cid)"

text \<open>
  A record whose weekday and time are valid and whose lead time is not negative and
  does not reach back, from the class on the date with ordinal \<open>e\<close>, before the first
  of January of the year 1, where no \<open>datetime\<close> exists.
\<close>

definition schedulable :: "int \<Rightarrow> TutoringClass \<Rightarrow> bool" where
  "schedulable e c \<longleftrightarrow>
     (case day_mapping (day_of_week c) of
        None \<Rightarrow> False
      | Some d \<Rightarrow>
          (case parse_class_time (class_time c) of
             None \<Rightarrow> False
           | Some (h, m) \<Rightarrow>
               0 \<le> h \<and> h \<le> 23 \<and> 0 \<le> m \<and> m \<le> 59 \<and>
               0 \<le> reminder_minutes c \<and>
               reminder_minutes c \<le> (e - 1) * 1440 + h * 60 + m))"

text \<open>Every such record has an entry in the job store.\<close>

definition jobs_present :: "int \<Rightarrow> state \<Rightarrow> bool" where
  "jobs_present e st \<longleftrightarrow>
     (\<forall>cid c. classes_db st cid = Some c \<and> schedulable e c \<longrightarrow>
        job_id cid \<in> fst ` set (jobs st))"

section \<open>Evaluation\<close>

lemmas py_int_defs = parse_class_time_def py_int_def to_ascii_def ascii_int_def c_strip_def
  c_isspace_def unsigned_int_def is_digit_def digit_value_def int_max_str_digits_def

lemmas trigger_defs = reminder_trigger_def day_mapping_def replace_time_def c_int_range_def
  minus_minutes_def Let_def

lemmas handler_defs = create_class_def update_class_def delete_class_def schedule_reminder_def
  send_manual_reminder_def send_class_reminder_def job_id_def try_remove_job_def init_state_def

lemma example_trigger:
  "reminder_trigger example_class example_now =
     Inr (Trigger \<lparr>cron_day_of_week = 0, cron_hour = 23, cron_minute = 40\<rparr>)"
  by (simp add: example_class_def example_now_def trigger_defs py_int_defs)

lemma example_trigger_created:
  "reminder_trigger (example_class\<lparr>is_active := a, id' := i, created_at := t\<rparr>) example_now =
     Inr (Trigger \<lparr>cron_day_of_week = 0, cron_hour = 23, cron_minute = 40\<rparr>)"
  by (simp add: example_class_def example_now_def trigger_defs py_int_defs)

lemma dormant_state_eq:
  "dormant_state =
     \<lparr>classes_db = [''c1'' \<mapsto> example_class\<lparr>is_active := False, id' := Some ''c1'',
                                              created_at := Some example_now\<rparr>],
      messages_db = [],
      jobs = [(''reminder_c1'',
               \<lparr>job_trigger = \<lparr>cron_day_of_week = 0, cron_hour = 23, cron_minute = 40\<rparr>,
                job_args = ''c1''\<rparr>)],
      log = [(INFO, ''Scheduled reminder for class c1'')]\<rparr>"
  by (simp add: dormant_state_def handler_defs example_trigger_created)

lemma created_state_eq:
  "created_state =
     \<lparr>classes_db = [''c1'' \<mapsto> example_class\<lparr>id' := Some ''c1'', created_at := Some example_now\<rparr>],
      messages_db = [],
      jobs = [(''reminder_c1'',
               \<lparr>job_trigger = \<lparr>cron_day_of_week = 0, cron_hour = 23, cron_minute = 40\<rparr>,
                job_args = ''c1''\<rparr>)],
      log = [(INFO, ''Scheduled reminder for class c1'')]\<rparr>"
  using example_trigger_created [where a = True and i = "Some ''c1''" and t = "Some example_now"]
  by (simp add: created_state_def handler_defs example_class_def)

lemma funday_trigger:
  "reminder_trigger (funday_class\<lparr>id' := i, created_at := t\<rparr>) now =
     Inr (Rejected ''Invalid day: Funday'')"
  by (simp add: funday_class_def example_class_def reminder_trigger_def day_mapping_def)

lemma late_trigger:
  "reminder_trigger (late_class\<lparr>id' := i, created_at := t\<rparr>) example_now = Inl ValueError"
  by (simp add: late_class_def example_class_def example_now_def trigger_defs py_int_defs)

section \<open>Properties of the job store and of the trigger\<close>

lemma map_fst_add_job:
  "map fst (add_job k j js) = (if k \<in> set (map fst js) then map fst js else map fst js @ [k])"
  by (induction js) auto

lemma distinct_add_job: "distinct (map fst js) \<Longrightarrow> distinct (map fst (add_job k j js))"
  by (simp add: map_fst_add_job)

lemma set_add_job:
  "distinct (map fst js) \<Longrightarrow> set (add_job k j js) = insert (k, j) {p \<in> set js. fst p \<noteq> k}"
  by (induction js) (auto simp: rev_image_eqI)

lemma remove_job_None: "remove_job k js = None \<longleftrightarrow> k \<notin> fst ` set js"
  by (induction js) auto

lemma remove_job_Some:
  "remove_job k js = Some js' \<Longrightarrow> distinct (map fst js) \<Longrightarrow>
     set js' = {p \<in> set js. fst p \<noteq> k} \<and> distinct (map fst js')"
proof (induction js arbitrary: js')
  case Nil
  then show ?case by simp
next
  case (Cons p ps)
  show ?case
  proof (cases "fst p = k")
    case True
    with Cons.prems show ?thesis by (auto simp: rev_image_eqI)
  next
    case False
    with Cons.prems obtain qs where q: "remove_job k ps = Some qs" "js' = p # qs"
      by auto
    from Cons.IH [OF q(1)] Cons.prems(2) have "set qs = {p \<in> set ps. fst p \<noteq> k}" "distinct (map fst qs)"
      by auto
    with q False Cons.prems(2) show ?thesis by auto
  qed
qed

lemma set_try_remove_job:
  "distinct (map fst js) \<Longrightarrow> set (try_remove_job k js) = {p \<in> set js. fst p \<noteq> k}"
proof (cases "remove_job k js")
  case None
  then have "k \<notin> fst ` set js" by (simp add: remove_job_None)
  then have "{p \<in> set js. fst p \<noteq> k} = set js" by auto
  with None show ?thesis by (simp add: try_remove_job_def)
next
  case (Some js')
  assume "distinct (map fst js)"
  with Some remove_job_Some [OF Some] show ?thesis by (simp add: try_remove_job_def)
qed

lemma distinct_try_remove_job:
  "distinct (map fst js) \<Longrightarrow> distinct (map fst (try_remove_job k js))"
  by (cases "remove_job k js") (auto simp: try_remove_job_def dest: remove_job_Some)

lemma job_id_inject [simp]: "job_id a = job_id b \<longleftrightarrow> a = b"
  by (simp add: job_id_def)

lemma minus_minutes_time:
  "minus_minutes t n = Inr r \<Longrightarrow>
     dt_hour r = ((dt_hour t * 60 + dt_minute t - n) mod 1440) div 60 \<and>
     dt_minute r = ((dt_hour t * 60 + dt_minute t - n) mod 1440) mod 60"
proof -
  have e: "(dt_ordinal t * 1440 + dt_hour t * 60 + dt_minute t - n) mod 1440 =
        (dt_hour t * 60 + dt_minute t - n) mod 1440"
  proof -
    have "dt_ordinal t * 1440 + dt_hour t * 60 + dt_minute t - n =
          (dt_hour t * 60 + dt_minute t - n) + dt_ordinal t * 1440" by simp
    then show ?thesis by (metis mod_mult_self1)
  qed
  assume "minus_minutes t n = Inr r"
  then show ?thesis
    by (auto simp: minus_minutes_def Let_def e split: if_splits)
qed

lemma reminder_trigger_Trigger:
  assumes "reminder_trigger c now = Inr (Trigger tr)"
  shows "\<exists>d h m. day_mapping (day_of_week c) = Some d \<and>
           parse_class_time (class_time c) = Some (h, m) \<and>
           tr = \<lparr>cron_day_of_week = d,
                 cron_hour = ((h * 60 + m - reminder_minutes c) mod 1440) div 60,
                 cron_minute = ((h * 60 + m - reminder_minutes c) mod 1440) mod 60\<rparr>"
  using assms
  by (auto simp: reminder_trigger_def replace_time_def
      split: option.splits sum.splits if_splits dest!: minus_minutes_time)

lemma trigger_deterministic:
  "reminder_trigger c now = Inr (Trigger tr) \<Longrightarrow> reminder_trigger c now' = Inr (Trigger tr') \<Longrightarrow> tr = tr'"
  by (auto dest!: reminder_trigger_Trigger)

lemma same_day_trigger:
  assumes "same_day_reminder c" and "valid_datetime now"
  shows "\<exists>tr. reminder_trigger c now = Inr (Trigger tr)"
proof -
  from assms(1) obtain d h m where
    p: "day_mapping (day_of_week c) = Some d" "parse_class_time (class_time c) = Some (h, m)"
       "0 \<le> h" "h \<le> 23" "0 \<le> m" "m \<le> 59" "0 \<le> reminder_minutes c"
       "reminder_minutes c \<le> h * 60 + m"
    by (auto simp: same_day_reminder_def split: option.splits)
  let ?total = "dt_ordinal now * 1440 + h * 60 + m - reminder_minutes c"
  from assms(2) have o: "1 \<le> dt_ordinal now" "dt_ordinal now \<le> 3652059"
    by (simp_all add: valid_datetime_def)
  from p o have "1440 \<le> ?total" "?total < 3652060 * 1440" by linarith+
  then have "1 \<le> ?total div 1440" "?total div 1440 \<le> 3652059" by linarith+
  moreover from p have "\<bar>reminder_minutes c div 1440\<bar> \<le> 999999999" by linarith
  ultimately show ?thesis using p
    by (simp add: reminder_trigger_def replace_time_def c_int_range_def minus_minutes_def Let_def)
qed

lemma schedule_reminder_Inl:
  "schedule_reminder cid c now st = Inl e \<Longrightarrow> \<not> (same_day_reminder c \<and> valid_datetime now)"
  by (auto simp: schedule_reminder_def split: sum.splits trigger_outcome.splits dest: same_day_trigger)

lemma schedule_reminder_Inr:
  assumes "schedule_reminder cid c now st = Inr st'"
  shows "classes_db st' = classes_db st \<and> messages_db st' = messages_db st \<and>
         ((jobs st' = jobs st \<and> \<not> (same_day_reminder c \<and> valid_datetime now)) \<or>
          (\<exists>tr. reminder_trigger c now = Inr (Trigger tr) \<and>
             jobs st' = add_job (job_id cid) \<lparr>job_trigger = tr, job_args = cid\<rparr> (jobs st)))"
  using assms
  by (auto simp: schedule_reminder_def split: sum.splits trigger_outcome.splits dest: same_day_trigger)

lemma inv_without_job:
  assumes d: "distinct (map fst (jobs st))"
    and j: "\<forall>p \<in> set (jobs st). fst p = job_id (job_args (snd p)) \<and>
              (\<exists>c now. classes_db st (job_args (snd p)) = Some c \<and> valid_datetime now \<and>
                 reminder_trigger c now = Inr (Trigger (job_trigger (snd p))))"
    and pres: "\<forall>k c. k \<noteq> cid \<and> classes_db st k = Some c \<and> same_day_reminder c \<longrightarrow>
                 job_id k \<in> fst ` set (jobs st)"
    and ids: "\<forall>k c. classes_db st k = Some c \<longrightarrow> id' c = Some k"
    and rec: "\<forall>c. classes_db st cid = Some c \<longrightarrow> \<not> same_day_reminder c"
  shows "job_store_inv st"
proof -
  have "\<forall>k c. classes_db st k = Some c \<and> same_day_reminder c \<longrightarrow> job_id k \<in> fst ` set (jobs st)"
  proof (intro allI impI)
    fix k c assume h: "classes_db st k = Some c \<and> same_day_reminder c"
    with rec have "k \<noteq> cid" by blast
    with h pres show "job_id k \<in> fst ` set (jobs st)" by blast
  qed
  with d j ids show ?thesis
    unfolding job_store_inv_def by blast
qed

text \<open>The invariant while a record is being replaced: no job under its id yet.\<close>

lemma inv_after_schedule:
  assumes d: "distinct (map fst (jobs st))"
    and nokey: "job_id cid \<notin> fst ` set (jobs st)"
    and j: "\<forall>p \<in> set (jobs st). fst p = job_id (job_args (snd p)) \<and>
              (\<exists>c now. classes_db st (job_args (snd p)) = Some c \<and> valid_datetime now \<and>
                 reminder_trigger c now = Inr (Trigger (job_trigger (snd p))))"
    and pres: "\<forall>k c. k \<noteq> cid \<and> classes_db st k = Some c \<and> same_day_reminder c \<longrightarrow>
                 job_id k \<in> fst ` set (jobs st)"
    and ids: "\<forall>k c. classes_db st k = Some c \<longrightarrow> id' c = Some k"
    and rec: "classes_db st cid = Some c"
    and v: "valid_datetime now"
  shows "job_store_inv (case schedule_reminder cid c now st of Inl e \<Rightarrow> st | Inr st' \<Rightarrow> st')"
proof -
  define db where "db = classes_db st"
  define js where "js = jobs st"
  have st: "classes_db st = db" "jobs st = js"
    by (simp_all add: db_def js_def)
  note d = d [unfolded st] and nokey = nokey [unfolded st] and j = j [unfolded st]
    and pres = pres [unfolded st] and ids = ids [unfolded st] and rec = rec [unfolded st]
  show ?thesis
proof (cases "schedule_reminder cid c now st")
  case (Inl e)
  then have "\<not> same_day_reminder c" using v by (auto dest: schedule_reminder_Inl)
  with d j pres ids rec st have "job_store_inv st"
    by (intro inv_without_job [where cid = cid]) simp_all
  with Inl show ?thesis by simp
next
  case (Inr st')
  from schedule_reminder_Inr [OF Inr] have db: "classes_db st' = db"
    and alt: "(jobs st' = js \<and> \<not> (same_day_reminder c \<and> valid_datetime now)) \<or>
          (\<exists>tr. reminder_trigger c now = Inr (Trigger tr) \<and>
             jobs st' = add_job (job_id cid) \<lparr>job_trigger = tr, job_args = cid\<rparr> js)"
    using st by auto
  from alt show ?thesis
  proof
    assume a: "jobs st' = js \<and> \<not> (same_day_reminder c \<and> valid_datetime now)"
    then have "\<not> same_day_reminder c" using v by simp
    with a d j pres ids rec db have "job_store_inv st'"
      by (intro inv_without_job [where cid = cid]) simp_all
    with Inr show ?thesis by simp
  next
    assume "\<exists>tr. reminder_trigger c now = Inr (Trigger tr) \<and>
             jobs st' = add_job (job_id cid) \<lparr>job_trigger = tr, job_args = cid\<rparr> js"
    then obtain tr where tr: "reminder_trigger c now = Inr (Trigger tr)"
      and js': "jobs st' = add_job (job_id cid) \<lparr>job_trigger = tr, job_args = cid\<rparr> js"
      by blast
    have s: "set (jobs st') = insert (job_id cid, \<lparr>job_trigger = tr, job_args = cid\<rparr>) (set js)"
      using set_add_job [OF d] nokey js' by (auto simp: rev_image_eqI)
    have 1: "distinct (map fst (jobs st'))"
      using d js' by (simp add: distinct_add_job)
    have 2: "\<forall>p \<in> set (jobs st'). fst p = job_id (job_args (snd p)) \<and>
              (\<exists>c now. classes_db st' (job_args (snd p)) = Some c \<and> valid_datetime now \<and>
                 reminder_trigger c now = Inr (Trigger (job_trigger (snd p))))"
      using j tr rec v by (auto simp: s db)
    have 3: "\<forall>k c. classes_db st' k = Some c \<and> same_day_reminder c \<longrightarrow>
                job_id k \<in> fst ` set (jobs st')"
    proof (intro allI impI)
      fix k c' assume h: "classes_db st' k = Some c' \<and> same_day_reminder c'"
      show "job_id k \<in> fst ` set (jobs st')"
      proof (cases "k = cid")
        case True
        then show ?thesis by (simp add: s)
      next
        case False
        with h pres have "job_id k \<in> fst ` set js" by (auto simp: db)
        then show ?thesis by (auto simp: s)
      qed
    qed
    from 1 2 3 ids Inr show ?thesis
      by (simp add: job_store_inv_def db)
  qed
qed
qed

section \<open>The invariant of the job store\<close>

lemma invD_distinct: "job_store_inv st \<Longrightarrow> distinct (map fst (jobs st))"
  unfolding job_store_inv_def by blast

lemma invD_key: "job_store_inv st \<Longrightarrow> p \<in> set (jobs st) \<Longrightarrow> fst p = job_id (job_args (snd p))"
  unfolding job_store_inv_def by blast

lemma invD_record:
  "job_store_inv st \<Longrightarrow> p \<in> set (jobs st) \<Longrightarrow>
     \<exists>c now. classes_db st (job_args (snd p)) = Some c \<and> valid_datetime now \<and>
        reminder_trigger c now = Inr (Trigger (job_trigger (snd p)))"
  unfolding job_store_inv_def by blast

lemma invD_present:
  "job_store_inv st \<Longrightarrow> classes_db st cid = Some c \<Longrightarrow> same_day_reminder c \<Longrightarrow>
     job_id cid \<in> fst ` set (jobs st)"
  unfolding job_store_inv_def by blast

lemma invD_id: "job_store_inv st \<Longrightarrow> classes_db st cid = Some c \<Longrightarrow> id' c = Some cid"
  unfolding job_store_inv_def by blast

lemma inv_no_job_without_record:
  assumes "job_store_inv st" and "classes_db st cid = None"
  shows "job_id cid \<notin> fst ` set (jobs st)"
proof
  assume "job_id cid \<in> fst ` set (jobs st)"
  then obtain p where p: "p \<in> set (jobs st)" "fst p = job_id cid" by auto
  with assms(1) have "fst p = job_id (job_args (snd p))"
    "\<exists>c. classes_db st (job_args (snd p)) = Some c"
    using invD_key [of st p] invD_record [of st p] by blast+
  with p assms(2) show False by auto
qed

lemma inv_job_args:
  "job_store_inv st \<Longrightarrow> p \<in> set (jobs st) \<Longrightarrow> fst p = job_id cid \<longleftrightarrow> job_args (snd p) = cid"
  using invD_key [of st p] by (metis job_id_inject)

lemma snd_create_class:
  "snd (create_class tc uuid now1 now2 st) =
     (case schedule_reminder uuid (tc\<lparr>id' := Some uuid, created_at := Some now1\<rparr>) now2
             (st\<lparr>classes_db := (classes_db st)(uuid \<mapsto> tc\<lparr>id' := Some uuid, created_at := Some now1\<rparr>)\<rparr>) of
        Inl e \<Rightarrow> st\<lparr>classes_db := (classes_db st)(uuid \<mapsto> tc\<lparr>id' := Some uuid, created_at := Some now1\<rparr>)\<rparr>
      | Inr st' \<Rightarrow> st')"
  by (simp add: create_class_def Let_def split: sum.splits)

lemma create_class_inv:
  assumes inv: "job_store_inv st" and fresh: "classes_db st uuid = None" and v: "valid_datetime now2"
  shows "job_store_inv (snd (create_class tc uuid now1 now2 st))"
proof -
  let ?c = "tc\<lparr>id' := Some uuid, created_at := Some now1\<rparr>"
  let ?db = "(classes_db st)(uuid \<mapsto> ?c)"
  let ?st1 = "st\<lparr>classes_db := ?db\<rparr>"
  have nokey: "job_id uuid \<notin> fst ` set (jobs st)"
    using inv fresh by (rule inv_no_job_without_record)
  have args: "\<forall>p \<in> set (jobs st). job_args (snd p) \<noteq> uuid"
    using nokey inv_job_args [OF inv] by (metis imageI)
  have j: "\<forall>p \<in> set (jobs st). fst p = job_id (job_args (snd p)) \<and>
              (\<exists>c now. ?db (job_args (snd p)) = Some c \<and> valid_datetime now \<and>
                 reminder_trigger c now = Inr (Trigger (job_trigger (snd p))))"
  proof
    fix p assume p: "p \<in> set (jobs st)"
    with args have "?db (job_args (snd p)) = classes_db st (job_args (snd p))" by simp
    with invD_key [OF inv p] invD_record [OF inv p]
    show "fst p = job_id (job_args (snd p)) \<and>
              (\<exists>c now. ?db (job_args (snd p)) = Some c \<and> valid_datetime now \<and>
                 reminder_trigger c now = Inr (Trigger (job_trigger (snd p))))"
      by simp
  qed
  have pres: "\<forall>k c. k \<noteq> uuid \<and> ?db k = Some c \<and> same_day_reminder c \<longrightarrow>
                job_id k \<in> fst ` set (jobs st)"
    using invD_present [OF inv] by auto
  have ids: "\<forall>k c. ?db k = Some c \<longrightarrow> id' c = Some k"
    using invD_id [OF inv] by simp
  have d: "distinct (map fst (jobs st))"
    using inv by (rule invD_distinct)
  have "job_store_inv (case schedule_reminder uuid ?c now2 ?st1 of Inl e \<Rightarrow> ?st1 | Inr st' \<Rightarrow> st')"
    using d nokey j pres ids v by (intro inv_after_schedule) simp_all
  then show ?thesis by (simp add: snd_create_class)
qed

lemma snd_update_class:
  "classes_db st cid \<noteq> None \<Longrightarrow>
   snd (update_class cid uc now st) =
     (case schedule_reminder cid (uc\<lparr>id' := Some cid\<rparr>) now
             (st\<lparr>jobs := try_remove_job (job_id cid) (jobs st),
                 classes_db := (classes_db st)(cid \<mapsto> uc\<lparr>id' := Some cid\<rparr>)\<rparr>) of
        Inl e \<Rightarrow> st\<lparr>jobs := try_remove_job (job_id cid) (jobs st),
                     classes_db := (classes_db st)(cid \<mapsto> uc\<lparr>id' := Some cid\<rparr>)\<rparr>
      | Inr st' \<Rightarrow> st')"
  by (cases "classes_db st cid") (simp_all add: update_class_def Let_def split: sum.splits)

lemma update_class_inv:
  assumes inv: "job_store_inv st" and v: "valid_datetime now"
  shows "job_store_inv (snd (update_class cid uc now st))"
proof (cases "classes_db st cid = None")
  case True
  with inv show ?thesis by (simp add: update_class_def)
next
  case False
  let ?c = "uc\<lparr>id' := Some cid\<rparr>"
  let ?db = "(classes_db st)(cid \<mapsto> ?c)"
  let ?js = "try_remove_job (job_id cid) (jobs st)"
  let ?st2 = "st\<lparr>jobs := ?js, classes_db := ?db\<rparr>"
  have d0: "distinct (map fst (jobs st))"
    using inv by (rule invD_distinct)
  have s: "set ?js = {p \<in> set (jobs st). fst p \<noteq> job_id cid}"
    using d0 by (rule set_try_remove_job)
  have d: "distinct (map fst ?js)"
    using d0 by (rule distinct_try_remove_job)
  have nokey: "job_id cid \<notin> fst ` set ?js"
    by (auto simp: s)
  have args: "\<forall>p \<in> set ?js. job_args (snd p) \<noteq> cid"
    using inv_job_args [OF inv] by (auto simp: s)
  have j: "\<forall>p \<in> set ?js. fst p = job_id (job_args (snd p)) \<and>
              (\<exists>c now. ?db (job_args (snd p)) = Some c \<and> valid_datetime now \<and>
                 reminder_trigger c now = Inr (Trigger (job_trigger (snd p))))"
  proof
    fix p assume p': "p \<in> set ?js"
    then have p: "p \<in> set (jobs st)" by (simp add: s)
    from p' args have "?db (job_args (snd p)) = classes_db st (job_args (snd p))" by simp
    with invD_key [OF inv p] invD_record [OF inv p]
    show "fst p = job_id (job_args (snd p)) \<and>
              (\<exists>c now. ?db (job_args (snd p)) = Some c \<and> valid_datetime now \<and>
                 reminder_trigger c now = Inr (Trigger (job_trigger (snd p))))"
      by simp
  qed
  have pres: "\<forall>k c. k \<noteq> cid \<and> ?db k = Some c \<and> same_day_reminder c \<longrightarrow>
                job_id k \<in> fst ` set ?js"
  proof (intro allI impI)
    fix k c assume h: "k \<noteq> cid \<and> ?db k = Some c \<and> same_day_reminder c"
    then have "job_id k \<in> fst ` set (jobs st)"
      using invD_present [OF inv, of k c] by auto
    then obtain p where "p \<in> set (jobs st)" "fst p = job_id k" by auto
    with h have "p \<in> set ?js" by (simp add: s)
    with \<open>fst p = job_id k\<close> show "job_id k \<in> fst ` set ?js" by (metis imageI)
  qed
  have ids: "\<forall>k c. ?db k = Some c \<longrightarrow> id' c = Some k"
    using invD_id [OF inv] by simp
  have "job_store_inv (case schedule_reminder cid ?c now ?st2 of Inl e \<Rightarrow> ?st2 | Inr st' \<Rightarrow> st')"
    using d nokey j pres ids v by (intro inv_after_schedule) simp_all
  with False show ?thesis by (simp add: snd_update_class)
qed

lemma delete_class_inv:
  assumes inv: "job_store_inv st"
  shows "job_store_inv (snd (delete_class cid st))"
proof (cases "classes_db st cid = None")
  case True
  with inv show ?thesis by (simp add: delete_class_def)
next
  case False
  let ?db = "(classes_db st)(cid := None)"
  let ?js = "try_remove_job (job_id cid) (jobs st)"
  let ?st' = "st\<lparr>jobs := ?js, classes_db := ?db\<rparr>"
  have d0: "distinct (map fst (jobs st))"
    using inv by (rule invD_distinct)
  have s: "set ?js = {p \<in> set (jobs st). fst p \<noteq> job_id cid}"
    using d0 by (rule set_try_remove_job)
  have d: "distinct (map fst (jobs ?st'))"
    using d0 by (simp add: distinct_try_remove_job)
  have args: "\<forall>p \<in> set ?js. job_args (snd p) \<noteq> cid"
    using inv_job_args [OF inv] by (auto simp: s)
  have j: "\<forall>p \<in> set (jobs ?st'). fst p = job_id (job_args (snd p)) \<and>
              (\<exists>c now. classes_db ?st' (job_args (snd p)) = Some c \<and> valid_datetime now \<and>
                 reminder_trigger c now = Inr (Trigger (job_trigger (snd p))))"
  proof
    fix p assume "p \<in> set (jobs ?st')"
    then have p': "p \<in> set ?js" by simp
    then have p: "p \<in> set (jobs st)" by (simp add: s)
    from p' args have "classes_db ?st' (job_args (snd p)) = classes_db st (job_args (snd p))"
      by simp
    with invD_key [OF inv p] invD_record [OF inv p]
    show "fst p = job_id (job_args (snd p)) \<and>
              (\<exists>c now. classes_db ?st' (job_args (snd p)) = Some c \<and> valid_datetime now \<and>
                 reminder_trigger c now = Inr (Trigger (job_trigger (snd p))))"
      by simp
  qed
  have pres: "\<forall>k c. k \<noteq> cid \<and> classes_db ?st' k = Some c \<and> same_day_reminder c \<longrightarrow>
                job_id k \<in> fst ` set (jobs ?st')"
  proof (intro allI impI)
    fix k c assume h: "k \<noteq> cid \<and> classes_db ?st' k = Some c \<and> same_day_reminder c"
    then have "job_id k \<in> fst ` set (jobs st)"
      using invD_present [OF inv, of k c] by auto
    then obtain p where "p \<in> set (jobs st)" "fst p = job_id k" by auto
    with h have "p \<in> set ?js" by (simp add: s)
    with \<open>fst p = job_id k\<close> have "job_id k \<in> fst ` set ?js" by (metis imageI)
    then show "job_id k \<in> fst ` set (jobs ?st')" by simp
  qed
  have ids: "\<forall>k c. classes_db ?st' k = Some c \<longrightarrow> id' c = Some k"
    using invD_id [OF inv] by (simp split: if_splits)
  have "job_store_inv ?st'"
    by (rule inv_without_job [where cid = cid, OF d j pres ids]) simp
  with False show ?thesis by (auto simp: delete_class_def)
qed

lemma send_class_reminder_frame:
  "classes_db (send_class_reminder cid mid ts st) = classes_db st \<and>
   jobs (send_class_reminder cid mid ts st) = jobs st"
  by (simp add: send_class_reminder_def send_whatsapp_message_def split: option.splits)

lemma job_store_inv_cong:
  "classes_db st' = classes_db st \<Longrightarrow> jobs st' = jobs st \<Longrightarrow> job_store_inv st' = job_store_inv st"
  by (simp add: job_store_inv_def)

lemma send_class_reminder_inv:
  "job_store_inv st \<Longrightarrow> job_store_inv (send_class_reminder cid mid ts st)"
  using job_store_inv_cong [of "send_class_reminder cid mid ts st" st]
  by (simp add: send_class_reminder_frame)

lemma send_manual_reminder_inv:
  "job_store_inv st \<Longrightarrow> job_store_inv (snd (send_manual_reminder cid request mid ts st))"
  by (simp add: send_manual_reminder_def send_class_reminder_inv)

lemma reachable_inv: "reachable st \<Longrightarrow> job_store_inv st"
proof (induction rule: reachable.induct)
  case r_init
  show ?case by (simp add: job_store_inv_def init_state_def)
next
  case (r_create st uuid now1 now2 tutoring_class)
  then show ?case by (simp add: create_class_inv)
next
  case (r_update st now cid updated_class)
  then show ?case by (simp add: update_class_inv)
next
  case (r_delete st cid)
  then show ?case by (simp add: delete_class_inv)
next
  case (r_manual st cid request mid ts)
  then show ?case by (simp add: send_manual_reminder_inv)
next
  case (r_fire st cid mid ts)
  then show ?case by (simp add: send_class_reminder_inv)
qed

section \<open>Example states and counting entries\<close>

lemma valid_example_now: "valid_datetime example_now"
  by (simp add: valid_datetime_def example_now_def)

lemma afternoon_trigger:
  "reminder_trigger (afternoon_class\<lparr>id' := i, created_at := t\<rparr>) example_now =
     Inr (Trigger \<lparr>cron_day_of_week = 2, cron_hour = 15, cron_minute = 30\<rparr>)"
  by (simp add: afternoon_class_def example_class_def example_now_def trigger_defs py_int_defs)

lemma afternoon_state_eq:
  "afternoon_state =
     \<lparr>classes_db = [''c1'' \<mapsto> afternoon_class\<lparr>id' := Some ''c1'', created_at := Some example_now\<rparr>],
      messages_db = [],
      jobs = [(''reminder_c1'',
               \<lparr>job_trigger = \<lparr>cron_day_of_week = 2, cron_hour = 15, cron_minute = 30\<rparr>,
                job_args = ''c1''\<rparr>)],
      log = [(INFO, ''Scheduled reminder for class c1'')]\<rparr>"
  by (simp add: afternoon_state_def handler_defs afternoon_trigger)

lemma funday_state_eq:
  "funday_state =
     \<lparr>classes_db = [''c1'' \<mapsto> funday_class\<lparr>id' := Some ''c1'', created_at := Some example_now\<rparr>],
      messages_db = [], jobs = [], log = [(ERROR, ''Invalid day: Funday'')]\<rparr>"
  by (simp add: funday_state_def handler_defs funday_trigger)

lemma reachable_afternoon_state: "reachable afternoon_state"
  unfolding afternoon_state_def
  by (rule r_create [OF r_init _ valid_example_now valid_example_now]) (simp add: init_state_def)

lemma reachable_funday_state: "reachable funday_state"
  unfolding funday_state_def
  by (rule r_create [OF r_init _ valid_example_now valid_example_now]) (simp add: init_state_def)

lemma same_day_afternoon:
  "same_day_reminder (afternoon_class\<lparr>id' := i, created_at := t\<rparr>)"
  by (simp add: same_day_reminder_def afternoon_class_def example_class_def day_mapping_def py_int_defs)

lemma filter_key_empty: "k \<notin> fst ` set js \<Longrightarrow> filter (\<lambda>p. fst p = k) js = []"
  by (induction js) auto

lemma one_entry:
  "distinct (map fst js) \<Longrightarrow> k \<in> fst ` set js \<Longrightarrow> length (filter (\<lambda>p. fst p = k) js) = 1"
  by (induction js) (auto simp: filter_key_empty)

lemma fst_set_add_job: "k \<in> fst ` set (add_job k j js)"
  by (induction js) auto

lemma map_of_add_job: "map_of (add_job k j js) k = Some j"
  by (induction js) auto

lemma classes_db_create:
  "classes_db (snd (create_class tc uuid now1 now2 st)) =
     (classes_db st)(uuid \<mapsto> tc\<lparr>id' := Some uuid, created_at := Some now1\<rparr>)"
  by (auto simp: snd_create_class split: sum.splits dest: schedule_reminder_Inr)

section \<open>Further properties of the trigger and of creation\<close>

lemma reminder_trigger_Rejected:
  "reminder_trigger c now = Inr (Rejected msg) \<Longrightarrow>
     day_mapping (day_of_week c) = None \<or> parse_class_time (class_time c) = None"
  by (auto simp: reminder_trigger_def split: option.splits sum.splits)

lemma rejected_never_triggers:
  "reminder_trigger c now = Inr (Rejected msg) \<Longrightarrow> reminder_trigger c now' \<noteq> Inr (Trigger tr)"
  by (auto dest!: reminder_trigger_Rejected reminder_trigger_Trigger)

lemma unparsed_time: "parse_class_time (class_time unparsed_class) = None"
  by (simp add: unparsed_class_def example_class_def py_int_defs)

lemma day_mapping_le: "day_mapping s = Some d \<Longrightarrow> d \<le> 6"
  by (auto simp: day_mapping_def split: if_splits)

text \<open>
  Where the reminder falls on the day of the class, the trigger is the class time less
  the lead time on the weekday of the class, and the round trip of the specification
  holds.
\<close>

lemma same_day_round_trip:
  assumes "same_day_reminder c" and "valid_datetime now"
  shows "\<exists>d h m tr. day_mapping (day_of_week c) = Some d \<and>
           parse_class_time (class_time c) = Some (h, m) \<and>
           reminder_trigger c now = Inr (Trigger tr) \<and> cron_day_of_week tr = d \<and>
           add_lead_back tr (reminder_minutes c) = weekly_minute d h m"
proof -
  from assms(1) obtain d h m where
    p: "day_mapping (day_of_week c) = Some d" "parse_class_time (class_time c) = Some (h, m)"
       "0 \<le> h" "h \<le> 23" "0 \<le> m" "m \<le> 59" "0 \<le> reminder_minutes c"
       "reminder_minutes c \<le> h * 60 + m"
    by (auto simp: same_day_reminder_def split: option.splits)
  from same_day_trigger [OF assms] obtain tr where tr: "reminder_trigger c now = Inr (Trigger tr)"
    by blast
  let ?t = "h * 60 + m - reminder_minutes c"
  from reminder_trigger_Trigger [OF tr] p have
    e: "tr = \<lparr>cron_day_of_week = d, cron_hour = (?t mod 1440) div 60, cron_minute = (?t mod 1440) mod 60\<rparr>"
    by simp
  from p have r: "0 \<le> ?t" "?t < 1440" by linarith+
  then have "?t mod 1440 = ?t" by simp
  then have "cron_hour tr * 60 + cron_minute tr = ?t"
    using e by simp
  then have w: "weekly_minute (cron_day_of_week tr) (cron_hour tr) (cron_minute tr) +
        reminder_minutes c = weekly_minute d h m"
    using e by (simp add: weekly_minute_def)
  from day_mapping_le [OF p(1)] p have "0 \<le> weekly_minute d h m" "weekly_minute d h m < 7 * 1440"
    by (simp_all add: weekly_minute_def)
  then have "weekly_minute d h m mod (7 * 1440) = weekly_minute d h m" by simp
  with w have "add_lead_back tr (reminder_minutes c) = weekly_minute d h m"
    by (simp add: add_lead_back_def)
  with p tr e show ?thesis by simp
qed

text \<open>
  A time that parses but is out of range makes \<open>create_class\<close> raise after the record
  has been stored.
\<close>

lemma create_time_out_of_range:
  assumes "day_mapping (day_of_week tc) = Some d" and "parse_class_time (class_time tc) = Some (h, m)"
    and "h < 0 \<or> 23 < h \<or> m < 0 \<or> 59 < m"
  shows "(\<exists>e. fst (create_class tc uuid now1 now2 st) = Inl e) \<and>
         snd (create_class tc uuid now1 now2 st) =
           st\<lparr>classes_db := (classes_db st)(uuid \<mapsto> tc\<lparr>id' := Some uuid, created_at := Some now1\<rparr>)\<rparr>"
  using assms
  by (auto simp: create_class_def schedule_reminder_def reminder_trigger_def replace_time_def Let_def)


section \<open>Records that always have their job\<close>

lemma reachable_since_reachable: "reachable_since e st \<Longrightarrow> reachable st"
  by (induction rule: reachable_since.induct) (auto intro: reachable.intros)

lemma keys_add_job: "fst ` set (add_job k j js) = insert k (fst ` set js)"
  by (induction js) auto

lemma remove_job_keeps:
  "remove_job k js = Some js' \<Longrightarrow> k' \<noteq> k \<Longrightarrow> k' \<in> fst ` set js \<Longrightarrow> k' \<in> fst ` set js'"
proof (induction js arbitrary: js')
  case Nil
  then show ?case by simp
next
  case (Cons p ps)
  show ?case
  proof (cases "fst p = k")
    case True
    with Cons.prems show ?thesis by auto
  next
    case False
    with Cons.prems(1) obtain qs where q: "remove_job k ps = Some qs" "js' = p # qs"
      by auto
    show ?thesis
    proof (cases "k' = fst p")
      case True
      with q show ?thesis by simp
    next
      case False
      with Cons.prems(3) have "k' \<in> fst ` set ps" by auto
      from Cons.IH [OF q(1) Cons.prems(2) this] q show ?thesis by simp
    qed
  qed
qed

lemma try_remove_job_keeps:
  "k' \<noteq> k \<Longrightarrow> k' \<in> fst ` set js \<Longrightarrow> k' \<in> fst ` set (try_remove_job k js)"
  by (cases "remove_job k js") (auto simp: try_remove_job_def dest: remove_job_keeps)

lemma schedulable_trigger:
  assumes "schedulable e c" and "valid_datetime now" and "e \<le> dt_ordinal now"
  shows "\<exists>tr. reminder_trigger c now = Inr (Trigger tr)"
proof -
  from assms(1) obtain d h m where
    p: "day_mapping (day_of_week c) = Some d" "parse_class_time (class_time c) = Some (h, m)"
       "0 \<le> h" "h \<le> 23" "0 \<le> m" "m \<le> 59" "0 \<le> reminder_minutes c"
       "reminder_minutes c \<le> (e - 1) * 1440 + h * 60 + m"
    by (auto simp: schedulable_def split: option.splits)
  let ?total = "dt_ordinal now * 1440 + h * 60 + m - reminder_minutes c"
  from assms(2) have o: "1 \<le> dt_ordinal now" "dt_ordinal now \<le> 3652059"
    by (simp_all add: valid_datetime_def)
  from p(8) have b: "reminder_minutes c \<le> e * 1440 - 1440 + h * 60 + m"
    by (simp add: algebra_simps)
  from p o assms(3) b have "1440 \<le> ?total" "?total < 3652060 * 1440" by linarith+
  then have "1 \<le> ?total div 1440" "?total div 1440 \<le> 3652059" by linarith+
  moreover from p o assms(3) b have "reminder_minutes c < 3652059 * 1440" by linarith
  with p have "\<bar>reminder_minutes c div 1440\<bar> \<le> 999999999" by linarith
  ultimately show ?thesis using p
    by (simp add: reminder_trigger_def replace_time_def c_int_range_def minus_minutes_def Let_def)
qed

lemma present_after_schedule:
  assumes others: "\<forall>k c. k \<noteq> cid \<and> classes_db st k = Some c \<and> schedulable e c \<longrightarrow>
                 job_id k \<in> fst ` set (jobs st)"
    and rec: "classes_db st cid = Some c0"
    and v: "valid_datetime now" "e \<le> dt_ordinal now"
  shows "jobs_present e (case schedule_reminder cid c0 now st of Inl x \<Rightarrow> st | Inr st' \<Rightarrow> st')"
proof (cases "schedulable e c0")
  case True
  from schedulable_trigger [OF True v] obtain tr where tr: "reminder_trigger c0 now = Inr (Trigger tr)"
    by blast
  let ?st' = "st\<lparr>jobs := add_job (job_id cid) \<lparr>job_trigger = tr, job_args = cid\<rparr> (jobs st),
                  log := log st @ [(INFO, ''Scheduled reminder for class '' @ cid)]\<rparr>"
  have e: "schedule_reminder cid c0 now st = Inr ?st'"
    by (simp add: schedule_reminder_def tr)
  have "jobs_present e ?st'"
    unfolding jobs_present_def
  proof (intro allI impI)
    fix k c assume h: "classes_db ?st' k = Some c \<and> schedulable e c"
    show "job_id k \<in> fst ` set (jobs ?st')"
    proof (cases "k = cid")
      case True
      then show ?thesis by (simp add: keys_add_job)
    next
      case False
      with h others have "job_id k \<in> fst ` set (jobs st)" by simp
      then show ?thesis by (simp add: keys_add_job)
    qed
  qed
  with e show ?thesis by simp
next
  case False
  have a: "jobs_present e st"
    unfolding jobs_present_def
  proof (intro allI impI)
    fix k c assume h: "classes_db st k = Some c \<and> schedulable e c"
    with False rec have "k \<noteq> cid" by auto
    with h others show "job_id k \<in> fst ` set (jobs st)" by simp
  qed
  show ?thesis
  proof (cases "schedule_reminder cid c0 now st")
    case (Inl x)
    with a show ?thesis by simp
  next
    case (Inr st')
    from schedule_reminder_Inr [OF Inr] have db: "classes_db st' = classes_db st"
      and alt: "jobs st' = jobs st \<or>
        (\<exists>tr. jobs st' = add_job (job_id cid) \<lparr>job_trigger = tr, job_args = cid\<rparr> (jobs st))"
      by auto
    from alt have sub: "fst ` set (jobs st) \<subseteq> fst ` set (jobs st')"
    proof
      assume "jobs st' = jobs st"
      then show ?thesis by simp
    next
      assume "\<exists>tr. jobs st' = add_job (job_id cid) \<lparr>job_trigger = tr, job_args = cid\<rparr> (jobs st)"
      then obtain tr where "jobs st' = add_job (job_id cid) \<lparr>job_trigger = tr, job_args = cid\<rparr> (jobs st)"
        by blast
      then have "fst ` set (jobs st') = insert (job_id cid) (fst ` set (jobs st))"
        by (simp only: keys_add_job)
      then show ?thesis by blast
    qed
    from a db sub have "jobs_present e st'"
      unfolding jobs_present_def by auto
    with Inr show ?thesis by simp
  qed
qed

lemma create_class_present:
  assumes pr: "jobs_present e st" and fresh: "classes_db st uuid = None"
    and v: "valid_datetime now2" "e \<le> dt_ordinal now2"
  shows "jobs_present e (snd (create_class tc uuid now1 now2 st))"
proof -
  let ?c = "tc\<lparr>id' := Some uuid, created_at := Some now1\<rparr>"
  let ?st1 = "st\<lparr>classes_db := (classes_db st)(uuid \<mapsto> ?c)\<rparr>"
  have others: "\<forall>k c. k \<noteq> uuid \<and> classes_db ?st1 k = Some c \<and> schedulable e c \<longrightarrow>
                 job_id k \<in> fst ` set (jobs ?st1)"
    using pr unfolding jobs_present_def by auto
  have rec: "classes_db ?st1 uuid = Some ?c" by simp
  from present_after_schedule [OF others rec v] show ?thesis
    by (simp add: snd_create_class)
qed

lemma update_class_present:
  assumes pr: "jobs_present e st" and v: "valid_datetime now" "e \<le> dt_ordinal now"
  shows "jobs_present e (snd (update_class cid uc now st))"
proof (cases "classes_db st cid = None")
  case True
  with pr show ?thesis by (simp add: update_class_def)
next
  case False
  let ?c = "uc\<lparr>id' := Some cid\<rparr>"
  let ?st2 = "st\<lparr>jobs := try_remove_job (job_id cid) (jobs st),
                 classes_db := (classes_db st)(cid \<mapsto> ?c)\<rparr>"
  have others: "\<forall>k c. k \<noteq> cid \<and> classes_db ?st2 k = Some c \<and> schedulable e c \<longrightarrow>
                 job_id k \<in> fst ` set (jobs ?st2)"
  proof (intro allI impI)
    fix k c assume h: "k \<noteq> cid \<and> classes_db ?st2 k = Some c \<and> schedulable e c"
    then have "classes_db st k = Some c" by auto
    with h pr have "job_id k \<in> fst ` set (jobs st)"
      unfolding jobs_present_def by blast
    moreover from h have "job_id k \<noteq> job_id cid" by simp
    ultimately have "job_id k \<in> fst ` set (try_remove_job (job_id cid) (jobs st))"
      by (simp add: try_remove_job_keeps)
    then show "job_id k \<in> fst ` set (jobs ?st2)" by simp
  qed
  have rec: "classes_db ?st2 cid = Some ?c" by simp
  from present_after_schedule [OF others rec v] False show ?thesis
    by (simp add: snd_update_class)
qed

lemma delete_class_present:
  assumes pr: "jobs_present e st"
  shows "jobs_present e (snd (delete_class cid st))"
proof (cases "classes_db st cid = None")
  case True
  with pr show ?thesis by (simp add: delete_class_def)
next
  case False
  let ?st' = "st\<lparr>jobs := try_remove_job (job_id cid) (jobs st),
                 classes_db := (classes_db st)(cid := None)\<rparr>"
  have "jobs_present e ?st'"
    unfolding jobs_present_def
  proof (intro allI impI)
    fix k c assume h: "classes_db ?st' k = Some c \<and> schedulable e c"
    then have n: "k \<noteq> cid" by (auto split: if_splits)
    with h have "classes_db st k = Some c" by auto
    with h pr have "job_id k \<in> fst ` set (jobs st)"
      unfolding jobs_present_def by blast
    moreover from n have "job_id k \<noteq> job_id cid" by simp
    ultimately have "job_id k \<in> fst ` set (try_remove_job (job_id cid) (jobs st))"
      by (simp add: try_remove_job_keeps)
    then show "job_id k \<in> fst ` set (jobs ?st')" by simp
  qed
  with False show ?thesis by (auto simp: delete_class_def)
qed

lemma send_class_reminder_present:
  "jobs_present e st \<Longrightarrow> jobs_present e (send_class_reminder cid mid ts st)"
  by (simp add: jobs_present_def send_class_reminder_frame)

lemma send_manual_reminder_present:
  "jobs_present e st \<Longrightarrow> jobs_present e (snd (send_manual_reminder cid request mid ts st))"
  by (simp add: send_manual_reminder_def send_class_reminder_present)

lemma reachable_since_present: "reachable_since e st \<Longrightarrow> jobs_present e st"
proof (induction rule: reachable_since.induct)
  case s_init
  show ?case by (simp add: jobs_present_def init_state_def)
next
  case (s_create st uuid now1 now2 tutoring_class)
  then show ?case by (simp add: create_class_present)
next
  case (s_update st now cid updated_class)
  then show ?case by (simp add: update_class_present)
next
  case (s_delete st cid)
  then show ?case by (simp add: delete_class_present)
next
  case (s_manual st cid request mid ts)
  then show ?case by (simp add: send_manual_reminder_present)
next
  case (s_fire st cid mid ts)
  then show ?case by (simp add: send_class_reminder_present)
qed

text \<open>The trigger built by the code against the Trigger Calculator of the specification.\<close>

lemma reminder_trigger_Trigger_range:
  assumes "reminder_trigger c now = Inr (Trigger tr)"
  shows "\<exists>d h m. day_mapping (day_of_week c) = Some d \<and>
           parse_class_time (class_time c) = Some (h, m) \<and>
           0 \<le> h \<and> h \<le> 23 \<and> 0 \<le> m \<and> m \<le> 59 \<and>
           tr = \<lparr>cron_day_of_week = d,
                 cron_hour = ((h * 60 + m - reminder_minutes c) mod 1440) div 60,
                 cron_minute = ((h * 60 + m - reminder_minutes c) mod 1440) mod 60\<rparr>"
  using assms
  by (auto simp: reminder_trigger_def replace_time_def
      split: option.splits sum.splits if_splits dest!: minus_minutes_time)

lemma compute_fire_spec_time:
  assumes "compute_fire_spec d h m lead = Some spec"
  shows "cron_hour spec = ((h * 60 + m - lead) mod 1440) div 60 \<and>
         cron_minute spec = ((h * 60 + m - lead) mod 1440) mod 60"
proof -
  let ?x = "weekly_minute d h m - lead"
  let ?w = "?x mod (7 * 1440)"
  have x: "?x = (h * 60 + m - lead) + int d * 1440"
    by (simp add: weekly_minute_def)
  have "?w mod 1440 = ?x mod 1440"
    by (rule mod_mod_cancel) simp
  also have "\<dots> = (h * 60 + m - lead) mod 1440"
    unfolding x by (rule mod_mult_self1)
  finally have a: "?w mod 1440 = (h * 60 + m - lead) mod 1440" .
  have "?w mod 60 = (?w mod 1440) mod 60"
    by (rule mod_mod_cancel [symmetric]) simp
  with a have b: "?w mod 60 = ((h * 60 + m - lead) mod 1440) mod 60" by simp
  from assms have "spec = \<lparr>cron_day_of_week = nat (?w div 1440),
        cron_hour = (?w mod 1440) div 60, cron_minute = ?w mod 60\<rparr>"
    by (auto simp: compute_fire_spec_def Let_def split: if_splits)
  with a b show ?thesis by simp
qed

lemma compute_fire_spec_same_day:
  assumes "compute_fire_spec d h m lead = Some spec" and "lead \<le> h * 60 + m"
  shows "spec = \<lparr>cron_day_of_week = d,
                  cron_hour = ((h * 60 + m - lead) mod 1440) div 60,
                  cron_minute = ((h * 60 + m - lead) mod 1440) mod 60\<rparr>"
proof -
  from assms(1) have r: "d \<le> 6" "0 \<le> h" "h \<le> 23" "0 \<le> m" "m \<le> 59" "0 \<le> lead"
    by (auto simp: compute_fire_spec_def split: if_splits)
  let ?x = "weekly_minute d h m - lead"
  let ?w = "?x mod (7 * 1440)"
  have x: "?x = (h * 60 + m - lead) + int d * 1440"
    by (simp add: weekly_minute_def)
  from r assms(2) have t: "0 \<le> h * 60 + m - lead" "h * 60 + m - lead < 1440" by linarith+
  with r x have "0 \<le> ?x" "?x < 7 * 1440" by linarith+
  then have w: "?w = ?x" by simp
  from t have "?x div 1440 = int d"
    unfolding x by simp
  with w have d: "nat (?w div 1440) = d" by simp
  from assms(1) have "spec = \<lparr>cron_day_of_week = nat (?w div 1440),
        cron_hour = (?w mod 1440) div 60, cron_minute = ?w mod 60\<rparr>"
    by (auto simp: compute_fire_spec_def Let_def split: if_splits)
  with d compute_fire_spec_time [OF assms(1)] show ?thesis by simp
qed

lemma example_ordinal: "739924 \<le> dt_ordinal example_now"
  by (simp add: example_now_def)

lemma reachable_since_created_state: "reachable_since 739924 created_state"
  unfolding created_state_def
  by (rule s_create [OF s_init _ valid_example_now valid_example_now example_ordinal])
    (simp add: init_state_def)

lemma reachable_since_afternoon_state: "reachable_since 739924 afternoon_state"
  unfolding afternoon_state_def
  by (rule s_create [OF s_init _ valid_example_now valid_example_now example_ordinal])
    (simp add: init_state_def)

lemma schedulable_example:
  "schedulable 739924 (example_class\<lparr>id' := i, created_at := t\<rparr>)"
  by (simp add: schedulable_def example_class_def day_mapping_def py_int_defs)

lemma afternoon_fields:
  "day_mapping (day_of_week afternoon_class) = Some 2"
  "parse_class_time (class_time afternoon_class) = Some (16, 0)"
  "reminder_minutes afternoon_class = 30"
  by (simp_all add: afternoon_class_def example_class_def day_mapping_def py_int_defs)

lemma afternoon_spec:
  "compute_fire_spec 2 16 0 30 =
     Some \<lparr>cron_day_of_week = 2, cron_hour = 15, cron_minute = 30\<rparr>"
  by (simp add: compute_fire_spec_def weekly_minute_def)

section \<open>The trigger at the week's first midnight\<close>

text \<open>
  C1. The round trip fails on the code at Monday, 00:10, 30 minutes ahead: the trigger
  built is Monday 23:40, and adding the 30 minutes back in weekly-minute space gives
  the minute of Tuesday 00:10, not that of Monday 00:10.
\<close>

theorem round_trip_monday_0010_lead_30:
  "reminder_trigger example_class example_now =
     Inr (Trigger \<lparr>cron_day_of_week = 0, cron_hour = 23, cron_minute = 40\<rparr>) \<and>
   add_lead_back \<lparr>cron_day_of_week = 0, cron_hour = 23, cron_minute = 40\<rparr> 30 =
     weekly_minute 1 0 10 \<and>
   weekly_minute 1 0 10 \<noteq> weekly_minute 0 0 10"
  by (simp add: example_trigger add_lead_back_def weekly_minute_def)

text \<open>
  C2. For Monday, 00:10, 30 minutes ahead the code builds the trigger (Monday, 23:40):
  the weekday is the one of the class (0, Monday), not the preceding one (6, Sunday).
\<close>

theorem trigger_monday_0010_lead_30:
  "reminder_trigger example_class example_now =
     Inr (Trigger \<lparr>cron_day_of_week = 0, cron_hour = 23, cron_minute = 40\<rparr>) \<and>
   day_mapping (day_of_week example_class) = Some 0 \<and>
   day_mapping ''Sunday'' = Some 6"
  by (simp add: example_trigger) (simp add: day_mapping_def example_class_def)

section \<open>Fields set at creation\<close>

text \<open>
  C8. After the example class has been created, an update whose body carries no
  \<open>created_at\<close> is answered with success and leaves the stored record with its id
  \<open>c1\<close> but with \<open>created_at\<close> equal to \<open>None\<close>, where creation had stored the clock
  reading.
\<close>

theorem update_loses_created_at:
  "map_option created_at (classes_db created_state ''c1'') = Some (Some example_now) \<and>
   fst (update_class ''c1'' (example_class\<lparr>reminder_minutes := 5\<rparr>) example_now created_state) =
     Inr [(''message'', ''Class updated successfully'')] \<and>
   map_option created_at
     (classes_db (snd (update_class ''c1'' (example_class\<lparr>reminder_minutes := 5\<rparr>)
                         example_now created_state)) ''c1'') = Some None \<and>
   map_option id'
     (classes_db (snd (update_class ''c1'' (example_class\<lparr>reminder_minutes := 5\<rparr>)
                         example_now created_state)) ''c1'') = Some (Some ''c1'')"
  by (simp add: created_state_eq handler_defs example_class_def example_now_def
      trigger_defs py_int_defs)

section \<open>The Dispatcher\<close>

text \<open>
  C6. When the record of \<open>cid\<close> exists and is switched off, \<open>send_class_reminder\<close> leaves
  the whole state as it was, so nothing is appended to \<open>messages_db\<close>; it returns
  without raising, and the manual route answers with its success message.
\<close>

theorem inactive_fire_sends_nothing:
  assumes "classes_db st cid = Some c" and "\<not> is_active c"
  shows "send_class_reminder cid mid ts st = st \<and>
         messages_db (send_class_reminder cid mid ts st) = messages_db st \<and>
         send_manual_reminder cid request mid ts st =
           (Inr [(''message'', ''Reminder sent successfully'')], st)"
  using assms by (simp add: send_class_reminder_def send_manual_reminder_def)

theorem inactive_fire_sends_nothing_witness:
  "classes_db dormant_state ''c1'' =
     Some (example_class\<lparr>is_active := False, id' := Some ''c1'', created_at := Some example_now\<rparr>) \<and>
   \<not> is_active (example_class\<lparr>is_active := False, id' := Some ''c1'',
                                created_at := Some example_now\<rparr>) \<and>
   send_class_reminder ''c1'' ''m1'' example_now dormant_state = dormant_state \<and>
   messages_db (send_class_reminder ''c1'' ''m1'' example_now dormant_state) = [] \<and>
   jobs dormant_state \<noteq> []"
proof -
  let ?c = "example_class\<lparr>is_active := False, id' := Some ''c1'', created_at := Some example_now\<rparr>"
  have h1: "classes_db dormant_state ''c1'' = Some ?c"
    by (simp add: dormant_state_eq)
  have h2: "\<not> is_active ?c"
    by simp
  have h3: "messages_db dormant_state = []" "jobs dormant_state \<noteq> []"
    by (simp_all add: dormant_state_eq)
  from inactive_fire_sends_nothing [OF h1 h2, of "''m1''" example_now example_request] h1 h2 h3
  show ?thesis by simp
qed

text \<open>
  C7. When no record is stored under \<open>cid\<close>, \<open>send_class_reminder\<close> reports it by logging
  the error \<open>Class cid not found\<close>, changes nothing else (so \<open>messages_db\<close> is as it
  was) and returns without raising, which is all a firing job sees; the manual route
  raises the 404 \<open>Class not found\<close> and leaves the state untouched.
\<close>

theorem unknown_class_fire:
  assumes "classes_db st cid = None"
  shows "send_class_reminder cid mid ts st =
           st\<lparr>log := log st @ [(ERROR, ''Class '' @ cid @ '' not found'')]\<rparr> \<and>
         messages_db (send_class_reminder cid mid ts st) = messages_db st \<and>
         send_manual_reminder cid request mid ts st =
           (Inl (HTTPException 404 ''Class not found''), st)"
  using assms by (simp add: send_class_reminder_def send_manual_reminder_def)

theorem unknown_class_fire_witness:
  "classes_db dormant_state ''c2'' = None \<and>
   log (send_class_reminder ''c2'' ''m1'' example_now dormant_state) =
     [(INFO, ''Scheduled reminder for class c1''), (ERROR, ''Class c2 not found'')] \<and>
   messages_db (send_class_reminder ''c2'' ''m1'' example_now dormant_state) = [] \<and>
   fst (send_manual_reminder ''c2'' example_request ''m1'' example_now dormant_state) =
     Inl (HTTPException 404 ''Class not found'')"
proof -
  have h: "classes_db dormant_state ''c2'' = None"
    by (simp add: dormant_state_eq)
  have m: "messages_db dormant_state = []"
     "log dormant_state = [(INFO, ''Scheduled reminder for class c1'')]"
    by (simp_all add: dormant_state_eq)
  from unknown_class_fire [OF h, of "''m1''" example_now example_request] h m
  show ?thesis by simp
qed

section \<open>Creation with invalid schedule fields\<close>

text \<open>
  C3, as amended. When the weekday is none of the seven names, or the time is not two
  integers separated by a colon, \<open>create_class\<close> does not reject the request: it answers
  with its success message and the new id, stores the record under that id, leaves the
  job store and \<open>messages_db\<close> as they were, and logs one error.
\<close>

theorem create_with_unparsed_schedule:
  assumes "day_mapping (day_of_week tc) = None \<or> parse_class_time (class_time tc) = None"
  shows "fst (create_class tc uuid now1 now2 st) =
           Inr [(''message'', ''Class created successfully''), (''class_id'', uuid)] \<and>
         classes_db (snd (create_class tc uuid now1 now2 st)) =
           (classes_db st)(uuid \<mapsto> tc\<lparr>id' := Some uuid, created_at := Some now1\<rparr>) \<and>
         jobs (snd (create_class tc uuid now1 now2 st)) = jobs st \<and>
         messages_db (snd (create_class tc uuid now1 now2 st)) = messages_db st \<and>
         (\<exists>msg. log (snd (create_class tc uuid now1 now2 st)) = log st @ [(ERROR, msg)])"
  using assms
  by (auto simp: create_class_def schedule_reminder_def reminder_trigger_def Let_def
      split: option.splits)

theorem create_with_unparsed_schedule_witness:
  "parse_class_time (class_time unparsed_class) = None \<and>
   fst (create_class unparsed_class ''c2'' example_now example_now afternoon_state) =
     Inr [(''message'', ''Class created successfully''), (''class_id'', ''c2'')] \<and>
   classes_db (snd (create_class unparsed_class ''c2'' example_now example_now afternoon_state)) ''c2'' =
     Some (unparsed_class\<lparr>id' := Some ''c2'', created_at := Some example_now\<rparr>) \<and>
   jobs (snd (create_class unparsed_class ''c2'' example_now example_now afternoon_state)) =
     jobs afternoon_state"
proof -
  have h: "day_mapping (day_of_week unparsed_class) = None \<or>
           parse_class_time (class_time unparsed_class) = None"
    by (simp add: unparsed_time)
  from create_with_unparsed_schedule [OF h, of "''c2''" example_now example_now afternoon_state] unparsed_time
  show ?thesis by simp
qed

text \<open>
  The claim as stated fails for the weekday \<open>Funday\<close>: the caller is answered with
  success and the record is stored.
\<close>

theorem create_with_bad_weekday_answers_success:
  "fst (create_class funday_class ''c1'' example_now example_now init_state) =
     Inr [(''message'', ''Class created successfully''), (''class_id'', ''c1'')] \<and>
   classes_db (snd (create_class funday_class ''c1'' example_now example_now init_state)) ''c1'' =
     Some (funday_class\<lparr>id' := Some ''c1'', created_at := Some example_now\<rparr>)"
  by (simp add: handler_defs funday_trigger)

section \<open>The job store and the records\<close>

text \<open>
  C4, as amended. In every state reached with clock readings on the date \<open>e\<close> or later:
  no job id occurs twice in the job store; every job is stored under the id of the
  class it is called with, that class has a record with a weekday and a time that
  parse, and where the Trigger Calculator of the specification yields a fire spec for
  the record's fields the job's hour and minute are those of the fire spec, and the
  whole trigger is the fire spec when the lead time does not reach back past midnight;
  every record, active or not, with a valid weekday and time and a lead time that is
  not negative and stays within the dates that exist has exactly one job; a record
  whose weekday or time does not parse has none; and an id without a record, a deleted
  one in particular, has none.
\<close>

theorem job_store_tracks_records:
  assumes "reachable_since e st"
  shows "distinct (map fst (jobs st)) \<and>
    (\<forall>p \<in> set (jobs st).
       fst p = job_id (job_args (snd p)) \<and>
       (\<exists>c d h m. classes_db st (job_args (snd p)) = Some c \<and>
          day_mapping (day_of_week c) = Some d \<and>
          parse_class_time (class_time c) = Some (h, m) \<and>
          (\<forall>spec. compute_fire_spec d h m (reminder_minutes c) = Some spec \<longrightarrow>
             cron_hour (job_trigger (snd p)) = cron_hour spec \<and>
             cron_minute (job_trigger (snd p)) = cron_minute spec \<and>
             (reminder_minutes c \<le> h * 60 + m \<longrightarrow> job_trigger (snd p) = spec)))) \<and>
    (\<forall>cid c. classes_db st cid = Some c \<and> schedulable e c \<longrightarrow>
       length (filter (\<lambda>p. fst p = job_id cid) (jobs st)) = 1) \<and>
    (\<forall>cid c. classes_db st cid = Some c \<and>
       (day_mapping (day_of_week c) = None \<or> parse_class_time (class_time c) = None) \<longrightarrow>
       filter (\<lambda>p. fst p = job_id cid) (jobs st) = []) \<and>
    (\<forall>cid. classes_db st cid = None \<longrightarrow> filter (\<lambda>p. fst p = job_id cid) (jobs st) = [])"
proof -
  have inv: "job_store_inv st"
    using assms by (intro reachable_inv reachable_since_reachable)
  have pr: "jobs_present e st"
    using assms by (rule reachable_since_present)
  have 1: "distinct (map fst (jobs st))"
    using inv by (rule invD_distinct)
  have 2: "\<forall>p \<in> set (jobs st).
       fst p = job_id (job_args (snd p)) \<and>
       (\<exists>c d h m. classes_db st (job_args (snd p)) = Some c \<and>
          day_mapping (day_of_week c) = Some d \<and>
          parse_class_time (class_time c) = Some (h, m) \<and>
          (\<forall>spec. compute_fire_spec d h m (reminder_minutes c) = Some spec \<longrightarrow>
             cron_hour (job_trigger (snd p)) = cron_hour spec \<and>
             cron_minute (job_trigger (snd p)) = cron_minute spec \<and>
             (reminder_minutes c \<le> h * 60 + m \<longrightarrow> job_trigger (snd p) = spec)))"
  proof
    fix p assume p: "p \<in> set (jobs st)"
    from invD_record [OF inv p] obtain c now where
      c: "classes_db st (job_args (snd p)) = Some c"
         "reminder_trigger c now = Inr (Trigger (job_trigger (snd p)))"
      by blast
    from reminder_trigger_Trigger_range [OF c(2)] obtain d h m where
      t: "day_mapping (day_of_week c) = Some d" "parse_class_time (class_time c) = Some (h, m)"
         "job_trigger (snd p) = \<lparr>cron_day_of_week = d,
             cron_hour = ((h * 60 + m - reminder_minutes c) mod 1440) div 60,
             cron_minute = ((h * 60 + m - reminder_minutes c) mod 1440) mod 60\<rparr>"
      by blast
    have s: "\<forall>spec. compute_fire_spec d h m (reminder_minutes c) = Some spec \<longrightarrow>
             cron_hour (job_trigger (snd p)) = cron_hour spec \<and>
             cron_minute (job_trigger (snd p)) = cron_minute spec \<and>
             (reminder_minutes c \<le> h * 60 + m \<longrightarrow> job_trigger (snd p) = spec)"
    proof (intro allI impI conjI)
      fix spec assume a: "compute_fire_spec d h m (reminder_minutes c) = Some spec"
      from compute_fire_spec_time [OF a] t(3)
      show "cron_hour (job_trigger (snd p)) = cron_hour spec"
        "cron_minute (job_trigger (snd p)) = cron_minute spec"
        by simp_all
      assume "reminder_minutes c \<le> h * 60 + m"
      from compute_fire_spec_same_day [OF a this] t(3)
      show "job_trigger (snd p) = spec" by simp
    qed
    have "\<exists>c d h m. classes_db st (job_args (snd p)) = Some c \<and>
          day_mapping (day_of_week c) = Some d \<and>
          parse_class_time (class_time c) = Some (h, m) \<and>
          (\<forall>spec. compute_fire_spec d h m (reminder_minutes c) = Some spec \<longrightarrow>
             cron_hour (job_trigger (snd p)) = cron_hour spec \<and>
             cron_minute (job_trigger (snd p)) = cron_minute spec \<and>
             (reminder_minutes c \<le> h * 60 + m \<longrightarrow> job_trigger (snd p) = spec))"
      by (intro exI [of _ c] exI [of _ d] exI [of _ h] exI [of _ m] conjI c(1) t(1) t(2) s)
    with invD_key [OF inv p]
    show "fst p = job_id (job_args (snd p)) \<and>
       (\<exists>c d h m. classes_db st (job_args (snd p)) = Some c \<and>
          day_mapping (day_of_week c) = Some d \<and>
          parse_class_time (class_time c) = Some (h, m) \<and>
          (\<forall>spec. compute_fire_spec d h m (reminder_minutes c) = Some spec \<longrightarrow>
             cron_hour (job_trigger (snd p)) = cron_hour spec \<and>
             cron_minute (job_trigger (snd p)) = cron_minute spec \<and>
             (reminder_minutes c \<le> h * 60 + m \<longrightarrow> job_trigger (snd p) = spec)))"
      by (rule conjI)
  qed
  have 3: "\<forall>cid c. classes_db st cid = Some c \<and> schedulable e c \<longrightarrow>
       length (filter (\<lambda>p. fst p = job_id cid) (jobs st)) = 1"
  proof (intro allI impI)
    fix cid c assume h: "classes_db st cid = Some c \<and> schedulable e c"
    with pr have "job_id cid \<in> fst ` set (jobs st)"
      unfolding jobs_present_def by blast
    with 1 show "length (filter (\<lambda>p. fst p = job_id cid) (jobs st)) = 1"
      by (rule one_entry)
  qed
  have 4: "\<forall>cid c. classes_db st cid = Some c \<and>
       (day_mapping (day_of_week c) = None \<or> parse_class_time (class_time c) = None) \<longrightarrow>
       filter (\<lambda>p. fst p = job_id cid) (jobs st) = []"
  proof (intro allI impI)
    fix cid c
    assume h: "classes_db st cid = Some c \<and>
       (day_mapping (day_of_week c) = None \<or> parse_class_time (class_time c) = None)"
    have "job_id cid \<notin> fst ` set (jobs st)"
    proof
      assume "job_id cid \<in> fst ` set (jobs st)"
      then obtain p where p: "p \<in> set (jobs st)" "fst p = job_id cid" by auto
      with inv_job_args [OF inv p(1), of cid] have a: "job_args (snd p) = cid" by simp
      from invD_record [OF inv p(1)] a h obtain now' where
        "reminder_trigger c now' = Inr (Trigger (job_trigger (snd p)))" by auto
      from reminder_trigger_Trigger [OF this] h show False by auto
    qed
    then show "filter (\<lambda>p. fst p = job_id cid) (jobs st) = []"
      by (rule filter_key_empty)
  qed
  have 5: "\<forall>cid. classes_db st cid = None \<longrightarrow> filter (\<lambda>p. fst p = job_id cid) (jobs st) = []"
  proof (intro allI impI)
    fix cid assume "classes_db st cid = None"
    with inv have "job_id cid \<notin> fst ` set (jobs st)"
      by (rule inv_no_job_without_record)
    then show "filter (\<lambda>p. fst p = job_id cid) (jobs st) = []"
      by (rule filter_key_empty)
  qed
  show ?thesis
    by (rule conjI [OF 1 conjI [OF 2 conjI [OF 3 conjI [OF 4 5]]]])
qed

theorem job_store_tracks_records_witness:
  "reachable_since 739924 created_state \<and>
   classes_db created_state ''c1'' =
     Some (example_class\<lparr>id' := Some ''c1'', created_at := Some example_now\<rparr>) \<and>
   schedulable 739924 (example_class\<lparr>id' := Some ''c1'', created_at := Some example_now\<rparr>) \<and>
   length (filter (\<lambda>p. fst p = job_id ''c1'') (jobs created_state)) = 1 \<and>
   classes_db created_state ''c2'' = None \<and>
   filter (\<lambda>p. fst p = job_id ''c2'') (jobs created_state) = [] \<and>
   reachable_since 739924 afternoon_state \<and>
   compute_fire_spec 2 16 0 30 =
     Some \<lparr>cron_day_of_week = 2, cron_hour = 15, cron_minute = 30\<rparr> \<and>
   map (\<lambda>p. job_trigger (snd p)) (jobs afternoon_state) =
     [\<lparr>cron_day_of_week = 2, cron_hour = 15, cron_minute = 30\<rparr>]"
proof -
  let ?c = "example_class\<lparr>id' := Some ''c1'', created_at := Some example_now\<rparr>"
  let ?a = "afternoon_class\<lparr>id' := Some ''c1'', created_at := Some example_now\<rparr>"
  let ?j = "\<lparr>job_trigger = \<lparr>cron_day_of_week = 2, cron_hour = 15, cron_minute = 30\<rparr>,
             job_args = ''c1''\<rparr>"
  have a: "classes_db created_state ''c1'' = Some ?c" "classes_db created_state ''c2'' = None"
    by (simp_all add: created_state_eq)
  note t = job_store_tracks_records [OF reachable_since_created_state]
  from t [THEN conjunct2, THEN conjunct2, THEN conjunct1] a(1) schedulable_example
  have one: "length (filter (\<lambda>p. fst p = job_id ''c1'') (jobs created_state)) = 1"
    by blast
  from t [THEN conjunct2, THEN conjunct2, THEN conjunct2, THEN conjunct2] a(2)
  have none: "filter (\<lambda>p. fst p = job_id ''c2'') (jobs created_state) = []"
    by blast
  note u = job_store_tracks_records [OF reachable_since_afternoon_state]
  have js: "jobs afternoon_state = [(''reminder_c1'', ?j)]"
    and db: "classes_db afternoon_state ''c1'' = Some ?a"
    by (simp_all add: afternoon_state_eq)
  have "(''reminder_c1'', ?j) \<in> set (jobs afternoon_state)"
    by (simp add: js)
  with u [THEN conjunct2, THEN conjunct1] obtain c d h m where
    r: "classes_db afternoon_state (job_args (snd (''reminder_c1'', ?j))) = Some c"
       "day_mapping (day_of_week c) = Some d"
       "parse_class_time (class_time c) = Some (h, m)"
       "\<forall>spec. compute_fire_spec d h m (reminder_minutes c) = Some spec \<longrightarrow>
             cron_hour (job_trigger (snd (''reminder_c1'', ?j))) = cron_hour spec \<and>
             cron_minute (job_trigger (snd (''reminder_c1'', ?j))) = cron_minute spec \<and>
             (reminder_minutes c \<le> h * 60 + m \<longrightarrow>
                job_trigger (snd (''reminder_c1'', ?j)) = spec)"
    by blast
  from r(1) db have c: "c = ?a" by simp
  from r(2,3) have dhm: "d = 2" "h = 16" "m = 0"
    unfolding c by (simp_all add: afternoon_fields)
  from r(4) afternoon_spec have
    "job_trigger (snd (''reminder_c1'', ?j)) =
       \<lparr>cron_day_of_week = 2, cron_hour = 15, cron_minute = 30\<rparr>"
    unfolding c dhm by (simp add: afternoon_fields)
  then have tr: "map (\<lambda>p. job_trigger (snd p)) (jobs afternoon_state) =
     [\<lparr>cron_day_of_week = 2, cron_hour = 15, cron_minute = 30\<rparr>]"
    by (simp add: js)
  from reachable_since_created_state a schedulable_example one none
    reachable_since_afternoon_state afternoon_spec tr
  show ?thesis by simp
qed

text \<open>
  The claim as stated fails in the state reached by creating the class with the weekday
  \<open>Funday\<close>: its record is active and the job store is empty.
\<close>

theorem active_record_without_job:
  "reachable funday_state \<and>
   map_option is_active (classes_db funday_state ''c1'') = Some True \<and>
   jobs funday_state = []"
  by (simp add: reachable_funday_state) (simp add: funday_state_eq funday_class_def example_class_def)

section \<open>Installing a job twice\<close>

text \<open>
  C5. In a job store without repeated ids, after \<open>add_job\<close> with \<open>replace_existing\<close> has
  been called twice for one id there is exactly one entry for that id and it holds the
  job of the second call; after the first call there is exactly one as well, and at
  both moments no id is repeated in the store.
\<close>

theorem add_job_twice:
  assumes "distinct (map fst js)"
  shows "length (filter (\<lambda>p. fst p = jid) (add_job jid j2 (add_job jid j1 js))) = 1 \<and>
         map_of (add_job jid j2 (add_job jid j1 js)) jid = Some j2 \<and>
         length (filter (\<lambda>p. fst p = jid) (add_job jid j1 js)) = 1 \<and>
         distinct (map fst (add_job jid j1 js)) \<and>
         distinct (map fst (add_job jid j2 (add_job jid j1 js)))"
proof -
  have d1: "distinct (map fst (add_job jid j1 js))"
    using assms by (rule distinct_add_job)
  then have d2: "distinct (map fst (add_job jid j2 (add_job jid j1 js)))"
    by (rule distinct_add_job)
  from d1 d2 show ?thesis
    by (simp add: one_entry fst_set_add_job map_of_add_job)
qed

theorem add_job_twice_witness:
  "distinct (map fst (jobs afternoon_state)) \<and>
   jobs afternoon_state \<noteq> [] \<and>
   length (filter (\<lambda>p. fst p = ''reminder_c1'')
     (add_job ''reminder_c1'' friday_1715 (add_job ''reminder_c1'' friday_1745 (jobs afternoon_state)))) = 1 \<and>
   map_of (add_job ''reminder_c1'' friday_1715 (add_job ''reminder_c1'' friday_1745 (jobs afternoon_state)))
     ''reminder_c1'' = Some friday_1715"
proof -
  have d: "distinct (map fst (jobs afternoon_state))" "jobs afternoon_state \<noteq> []"
    by (simp_all add: afternoon_state_eq)
  from add_job_twice [OF d(1), of "''reminder_c1''" friday_1715 friday_1745] d show ?thesis by simp
qed

section \<open>Deletion\<close>

text \<open>
  C9. In the state a reachable state is taken to by \<open>delete_class cid\<close>, whatever minute
  the clock reaches, \<open>cid\<close> is not among the arguments \<open>send_class_reminder\<close> is called
  with by the jobs due at that minute, and \<open>cid\<close> has no record.
\<close>

theorem deleted_class_never_due:
  assumes "reachable st"
  shows "cid \<notin> set (due_jobs d h m (jobs (snd (delete_class cid st)))) \<and>
         classes_db (snd (delete_class cid st)) cid = None"
proof -
  let ?st' = "snd (delete_class cid st)"
  have inv: "job_store_inv ?st'"
    using assms by (simp add: reachable_inv delete_class_inv)
  have gone: "classes_db ?st' cid = None"
    by (simp add: delete_class_def)
  have nokey: "job_id cid \<notin> fst ` set (jobs ?st')"
    using inv gone by (rule inv_no_job_without_record)
  have "cid \<notin> set (due_jobs d h m (jobs ?st'))"
  proof
    assume "cid \<in> set (due_jobs d h m (jobs ?st'))"
    then obtain p where p: "p \<in> set (jobs ?st')" "job_args (snd p) = cid"
      by (auto simp: due_jobs_def)
    with invD_key [OF inv p(1)] have "fst p = job_id cid" by simp
    with p(1) nokey show False by (metis imageI)
  qed
  with gone show ?thesis by simp
qed

theorem deleted_class_never_due_witness:
  "reachable afternoon_state \<and>
   due_jobs 2 15 30 (jobs afternoon_state) = [''c1''] \<and>
   fst (delete_class ''c1'' afternoon_state) = Inr [(''message'', ''Class deleted successfully'')] \<and>
   ''c1'' \<notin> set (due_jobs 2 15 30 (jobs (snd (delete_class ''c1'' afternoon_state))))"
proof -
  have a: "due_jobs 2 15 30 (jobs afternoon_state) = [''c1'']"
    by (simp add: afternoon_state_eq due_jobs_def trigger_matches_def)
  have b: "fst (delete_class ''c1'' afternoon_state) = Inr [(''message'', ''Class deleted successfully'')]"
    by (simp add: afternoon_state_eq delete_class_def)
  from deleted_class_never_due [OF reachable_afternoon_state, of "''c1''" 2 15 30] a b reachable_afternoon_state
  show ?thesis by simp
qed

section \<open>The id of a new record\<close>

text \<open>
  What holds of the id on every request: an id supplied in the request body changes
  nothing in what \<open>create_class\<close> does; the record is stored under the generated id
  with that id as its \<open>id\<close> field; whenever \<open>create_class\<close> answers, the answer carries
  the generated id; and a later \<open>create_class\<close> given a different generated id leaves
  the record under its key and stores its own under the other.
\<close>

theorem create_keys_by_generated_id:
  "create_class (tc\<lparr>id' := supplied\<rparr>) uuid now1 now2 st = create_class tc uuid now1 now2 st \<and>
   classes_db (snd (create_class tc uuid now1 now2 st)) uuid =
     Some (tc\<lparr>id' := Some uuid, created_at := Some now1\<rparr>) \<and>
   (\<forall>r. fst (create_class tc uuid now1 now2 st) = Inr r \<longrightarrow>
      r = [(''message'', ''Class created successfully''), (''class_id'', uuid)]) \<and>
   (\<forall>uuid2 tc2 n1 n2. uuid2 \<noteq> uuid \<longrightarrow>
      classes_db (snd (create_class tc2 uuid2 n1 n2 (snd (create_class tc uuid now1 now2 st)))) uuid =
        Some (tc\<lparr>id' := Some uuid, created_at := Some now1\<rparr>) \<and>
      classes_db (snd (create_class tc2 uuid2 n1 n2 (snd (create_class tc uuid now1 now2 st)))) uuid2 =
        Some (tc2\<lparr>id' := Some uuid2, created_at := Some n1\<rparr>))"
proof -
  have 1: "create_class (tc\<lparr>id' := supplied\<rparr>) uuid now1 now2 st = create_class tc uuid now1 now2 st"
    by (simp add: create_class_def)
  have 3: "\<forall>r. fst (create_class tc uuid now1 now2 st) = Inr r \<longrightarrow>
      r = [(''message'', ''Class created successfully''), (''class_id'', uuid)]"
    by (auto simp: create_class_def Let_def split: sum.splits)
  from 1 3 show ?thesis
    by (simp add: classes_db_create)
qed

theorem create_keys_by_generated_id_witness:
  "create_class (afternoon_class\<lparr>id' := Some ''mine''\<rparr>) ''c1'' example_now example_now init_state =
     create_class afternoon_class ''c1'' example_now example_now init_state \<and>
   fst (create_class afternoon_class ''c1'' example_now example_now init_state) =
     Inr [(''message'', ''Class created successfully''), (''class_id'', ''c1'')] \<and>
   classes_db (snd (create_class example_class ''c2'' example_now example_now
       (snd (create_class afternoon_class ''c1'' example_now example_now init_state)))) ''c1'' =
     Some (afternoon_class\<lparr>id' := Some ''c1'', created_at := Some example_now\<rparr>) \<and>
   classes_db (snd (create_class example_class ''c2'' example_now example_now
       (snd (create_class afternoon_class ''c1'' example_now example_now init_state)))) ''c2'' =
     Some (example_class\<lparr>id' := Some ''c2'', created_at := Some example_now\<rparr>)"
proof -
  have a: "fst (create_class afternoon_class ''c1'' example_now example_now init_state) =
     Inr [(''message'', ''Class created successfully''), (''class_id'', ''c1'')]"
    by (simp add: handler_defs afternoon_trigger)
  have n: "''c2'' \<noteq> ''c1''" by simp
  note t = create_keys_by_generated_id [where tc = afternoon_class and supplied = "Some ''mine''" and uuid = "''c1''"
      and ?now1.0 = example_now and ?now2.0 = example_now and st = init_state]
  note two = t [THEN conjunct2, THEN conjunct2, THEN conjunct2, rule_format,
      of "''c2''" example_class example_now example_now, OF n]
  show ?thesis
    by (rule conjI [OF t [THEN conjunct1] conjI [OF a two]])
qed

text \<open>
  C10. For the time \<open>24:00\<close> the record is stored under the generated id \<open>c1\<close>, but
  \<open>create_class\<close> raises \<open>ValueError\<close>, so the caller is not given the id.
\<close>

theorem create_raising_returns_no_id:
  "fst (create_class late_class ''c1'' example_now example_now init_state) = Inl ValueError \<and>
   classes_db (snd (create_class late_class ''c1'' example_now example_now init_state)) ''c1'' =
     Some (late_class\<lparr>id' := Some ''c1'', created_at := Some example_now\<rparr>)"
  by (simp add: handler_defs late_trigger)

end
